theory Spec2Isabelle
  imports Main "HOL-Library.AList" "HOL-Library.Sublist" "HOL-Library.Word"
begin

section \<open>Glyph storage and resolution (firebase-storage.js)\<close>

text \<open>
  A shallow embedding of \<^verbatim>\<open>firebase-storage.js\<close>: the identity provider
  \<^verbatim>\<open>getUserId\<close>, the glyph store (\<^verbatim>\<open>saveLettering\<close>,
  \<^verbatim>\<open>loadLetteringsForInteraction\<close>, \<^verbatim>\<open>loadUserLetterings\<close>,
  \<^verbatim>\<open>getRandomGlobalGlyph\<close>) and the resolution engine
  \<^verbatim>\<open>loadAllLetteringsForInteraction\<close>.

  The module reads and writes two stores: the browser's \<^verbatim>\<open>localStorage\<close> and, when the
  module-level handle \<^verbatim>\<open>db\<close> is not null, a Firestore database. Both are explicit
  state here. Everything the module takes from outside (the clock, \<^verbatim>\<open>Math.random\<close>, the
  identifier Firestore gives a new document, and which remote calls fail) is a field of an
  environment record, so that every function below is a total, executable function of its
  arguments, the state and the environment.
\<close>

subsection \<open>JavaScript values\<close>

text \<open>
  The exported functions are untyped; their arguments may be any JavaScript value, and so
  may the fields of a document read from Firestore. Strings are lists of characters;
  numbers are integers (what the module does with a number depends only on whether it is
  zero).
\<close>

datatype jsval =
    JUndefined
  | JNull
  | JBool bool
  | JNumber int
  | JString string
  | JArray "jsval list"
  | JObject

text \<open>Truthiness, as \<^verbatim>\<open>!x\<close> and \<^verbatim>\<open>if (x)\<close> see it.\<close>

fun truthy :: "jsval \<Rightarrow> bool" where
  "truthy JUndefined = False"
| "truthy JNull = False"
| "truthy (JBool b) = b"
| "truthy (JNumber n) = (n \<noteq> 0)"
| "truthy (JString s) = (s \<noteq> [])"
| "truthy (JArray xs) = True"
| "truthy JObject = True"

text \<open>\<^verbatim>\<open>typeof x === 'string'\<close> and \<^verbatim>\<open>Array.isArray(x)\<close>.\<close>

fun isString :: "jsval \<Rightarrow> bool" where
  "isString (JString s) = True"
| "isString v = False"

fun isArray :: "jsval \<Rightarrow> bool" where
  "isArray (JArray xs) = True"
| "isArray v = False"

text \<open>\<^verbatim>\<open>s.startsWith(p)\<close>.\<close>

definition startsWith :: "string \<Rightarrow> string \<Rightarrow> bool" where
  "startsWith s p = prefix p s"

text \<open>
  The decimal rendering of an integer, which is what string concatenation with
  \<^verbatim>\<open>Date.now()\<close> produces.
\<close>

definition digit_char :: "nat \<Rightarrow> char" where
  "digit_char d = ''0123456789'' ! (d mod 10)"

fun show_nat :: "nat \<Rightarrow> string" where
  "show_nat n = (if n < 10 then [digit_char n] else show_nat (n div 10) @ [digit_char n])"

declare show_nat.simps [simp del]

definition show_int :: "int \<Rightarrow> string" where
  "show_int i = (if i < 0 then CHR ''-'' # show_nat (nat (- i)) else show_nat (nat i))"

subsection \<open>Errors\<close>

text \<open>
  The exceptions the module throws or lets through. \<open>InvalidCharacter\<close> and
  \<open>InvalidImageData\<close> are the two validation errors of \<^verbatim>\<open>saveLettering\<close>;
  \<open>QuotaExceededError\<close> is what \<^verbatim>\<open>localStorage.setItem\<close> throws; \<open>LocalStorageNotAvailable\<close>
  is the error \<^verbatim>\<open>saveLettering\<close> throws in its place; the next three are what its
  \<^verbatim>\<open>catch\<close> makes of a Firestore error; \<open>TypeError\<close> is what calling
  \<^verbatim>\<open>substring\<close> on a value that has no such method throws.
\<close>

datatype fs_code = permission_denied | unavailable | other_code string

datatype error =
    InvalidCharacter
  | InvalidImageData
  | QuotaExceededError
  | LocalStorageNotAvailable
  | PermissionDenied
  | FirestoreUnavailable
  | FirestoreError string
  | TypeError

fun isInvalidInput :: "error \<Rightarrow> bool" where
  "isInvalidInput InvalidCharacter = True"
| "isInvalidInput InvalidImageData = True"
| "isInvalidInput e = False"

subsection \<open>localStorage\<close>

text \<open>
  \<^verbatim>\<open>localStorage\<close> is an ordered list of key/value pairs (\<^verbatim>\<open>key(i)\<close> enumerates it)
  with a quota on its total size. \<^verbatim>\<open>setItem\<close> replaces the value of a key that is
  present, appends the pair otherwise, and throws when the result would not fit.
\<close>

record local_storage =
  items :: "(string \<times> string) list"
  quota :: nat

definition getItem :: "local_storage \<Rightarrow> string \<Rightarrow> string option" where
  "getItem ls k = map_of (items ls) k"

definition storage_size :: "(string \<times> string) list \<Rightarrow> nat" where
  "storage_size kvs = sum_list (map (\<lambda>(k, v). length k + length v) kvs)"

definition setItem :: "string \<Rightarrow> string \<Rightarrow> local_storage \<Rightarrow> error + local_storage" where
  "setItem k v ls =
     (let new = AList.update k v (items ls)
      in if storage_size new \<le> quota ls then Inr (ls\<lparr>items := new\<rparr>)
         else Inl QuotaExceededError)"

subsection \<open>The environment\<close>

text \<open>
  \<^item> \<open>now\<close>: \<^verbatim>\<open>Date.now()\<close>;
  \<^item> \<open>random_suffix\<close>: \<^verbatim>\<open>Math.random().toString(36).substr(2, 9)\<close>;
  \<^item> \<open>random i\<close>: the value of \<^verbatim>\<open>Math.random()\<close> in the \<open>i\<close>-th global-pool
    lookup of one resolution, a double in \<open>[0, 1)\<close>: the pair \<open>(m, p)\<close> is
    \<open>m / 2 ^ (53 + p)\<close>, and every double in \<open>[0, 1)\<close> is of this form with \<open>m < 2 ^ 53\<close>;
  \<^item> \<open>auto_id\<close>: the identifier \<^verbatim>\<open>addDoc\<close> gives the new document;
  \<^item> \<open>server_time\<close>: what the server puts for \<^verbatim>\<open>serverTimestamp()\<close>;
  \<^item> \<open>addDoc_error\<close>, \<open>setDoc_error\<close>: the error code with which the write is rejected, if
    it is;
  \<^item> \<open>getUserDoc_error\<close>: whether reading the user's document fails;
  \<^item> \<open>getGlyphDoc_error c\<close>: whether reading the glyph the user's map points to for \<open>c\<close> fails;
  \<^item> \<open>getDocs_error i c\<close>: whether the \<open>i\<close>-th global-pool query, for character \<open>c\<close>, fails.
\<close>

record env =
  now :: int
  random_suffix :: string
  random :: "nat \<Rightarrow> 53 word \<times> nat"
  auto_id :: string
  server_time :: int
  addDoc_error :: "fs_code option"
  setDoc_error :: "fs_code option"
  getUserDoc_error :: bool
  getGlyphDoc_error :: "string \<Rightarrow> bool"
  getDocs_error :: "nat \<Rightarrow> string \<Rightarrow> bool"

subsection \<open>Identity provider\<close>

definition USER_ID_KEY :: string where
  "USER_ID_KEY = ''absurde_user_id''"

text \<open>
  \<^verbatim>\<open>getUserId\<close>: the stored token when there is one and it is not the empty string
  (\<^verbatim>\<open>!userId\<close> holds of \<^verbatim>\<open>null\<close> and of \<^verbatim>\<open>''\<close>); otherwise a new token, stored
  before it is returned. The \<^verbatim>\<open>setItem\<close> is not guarded, so its exception is the
  function's.
\<close>

definition new_token :: "env \<Rightarrow> string" where
  "new_token e = ''user_'' @ show_int (now e) @ ''_'' @ random_suffix e"

definition getUserId :: "env \<Rightarrow> local_storage \<Rightarrow> error + (string \<times> local_storage)" where
  "getUserId e ls =
     (let stored = getItem ls USER_ID_KEY
      in if stored = None \<or> stored = Some []
         then (case setItem USER_ID_KEY (new_token e) ls of
                 Inl err \<Rightarrow> Inl err
               | Inr ls' \<Rightarrow> Inr (new_token e, ls'))
         else Inr (the stored, ls))"

subsection \<open>Firestore\<close>

text \<open>
  The collection \<^verbatim>\<open>globalGlyphs\<close> is a list of documents with their identifiers, in the
  order a query returns them; \<^verbatim>\<open>userGlyphs\<close> maps a user identifier to that user's
  document, and a document maps field names to values. The fields \<^verbatim>\<open>char\<close> and
  \<^verbatim>\<open>imageData\<close> of a glyph may hold any value (the access rules let anyone create a
  glyph document); a field of a user's document is a string or a map from strings to
  strings (the pointer map of the data model).
\<close>

record glyph_doc =
  doc_char :: jsval
  doc_imageData :: jsval
  doc_createdAt :: int
  doc_sourceUserId :: string

datatype fs_value = FString string | FMap "string \<Rightarrow> string option"

record firestore =
  globalGlyphs :: "(string \<times> glyph_doc) list"
  userGlyphs :: "string \<Rightarrow> (string \<Rightarrow> fs_value option) option"

text \<open>
  \<^verbatim>\<open>addDoc(collection, data)\<close> writes \<open>data\<close> under a fresh identifier and returns it.
\<close>

definition addDoc :: "env \<Rightarrow> glyph_doc \<Rightarrow> firestore \<Rightarrow> fs_code + (string \<times> firestore)" where
  "addDoc e d fs =
     (case addDoc_error e of
        Some code \<Rightarrow> Inl code
      | None \<Rightarrow> Inr (auto_id e, fs\<lparr>globalGlyphs := AList.update (auto_id e) d (globalGlyphs fs)\<rparr>))"

text \<open>
  \<^verbatim>\<open>setDoc(ref, {[name]: value}, {merge: true})\<close> creates the document when it does not
  exist and sets the one field called \<open>name\<close>, leaving every other field of the document.
  The key of the object literal is the name of the field: \<^verbatim>\<open>setDoc\<close> does not read a dot
  in it as a path into a nested map (only \<^verbatim>\<open>updateDoc\<close> does).
\<close>

definition setDoc_merge ::
  "env \<Rightarrow> string \<Rightarrow> string \<Rightarrow> fs_value \<Rightarrow> firestore \<Rightarrow> fs_code + firestore" where
  "setDoc_merge e docId name v fs =
     (case setDoc_error e of
        Some code \<Rightarrow> Inl code
      | None \<Rightarrow>
          Inr (fs\<lparr>userGlyphs := (userGlyphs fs)
                 (docId \<mapsto> (case userGlyphs fs docId of None \<Rightarrow> Map.empty | Some d \<Rightarrow> d)
                              (name \<mapsto> v))\<rparr>))"

text \<open>
  \<^verbatim>\<open>userDoc.data().charMap || {}\<close> followed by \<^verbatim>\<open>Object.entries\<close>: the entries of the
  field \<^verbatim>\<open>charMap\<close>. A missing field and the empty string are falsy and give \<^verbatim>\<open>{}\<close>; the
  entries of a non-empty string are its characters under their indices.
\<close>

fun orEmpty :: "fs_value option \<Rightarrow> fs_value" where
  "orEmpty None = FMap Map.empty"
| "orEmpty (Some (FString s)) = (if s = [] then FMap Map.empty else FString s)"
| "orEmpty (Some (FMap m)) = FMap m"

fun entries :: "fs_value \<Rightarrow> (string \<Rightarrow> string option)" where
  "entries (FMap m) = m"
| "entries (FString s) = map_of (map (\<lambda>i. (show_nat i, [s ! i])) [0..<length s])"

subsection \<open>The state\<close>

text \<open>\<open>db = None\<close> is the module-level handle being \<^verbatim>\<open>null\<close>: Firebase is not configured.\<close>

record state =
  localStorage :: local_storage
  db :: "firestore option"

subsection \<open>Glyph store: saving\<close>

fun stringOf :: "jsval \<Rightarrow> string" where
  "stringOf (JString s) = s"
| "stringOf v = []"

fun translate :: "fs_code \<Rightarrow> error" where
  "translate permission_denied = PermissionDenied"
| "translate unavailable = FirestoreUnavailable"
| "translate (other_code s) = FirestoreError s"

text \<open>The template literal \<^verbatim>\<open>`local_glyph_${userId}_${char}`\<close>.\<close>

definition localKey :: "string \<Rightarrow> string \<Rightarrow> string" where
  "localKey userId c = ''local_glyph_'' @ userId @ ''_'' @ c"

text \<open>
  \<^verbatim>\<open>saveLettering(char, imageData)\<close>. The result is the exception thrown or the identifier
  returned, with the state the call leaves behind.
\<close>

definition saveLettering :: "env \<Rightarrow> jsval \<Rightarrow> jsval \<Rightarrow> state \<Rightarrow> (error + string) \<times> state" where
  "saveLettering e chr img st =
     (if \<not> truthy chr \<or> \<not> isString chr \<or> length (stringOf chr) = 0
      then (Inl InvalidCharacter, st)
      else if \<not> truthy img \<or> \<not> isString img \<or> \<not> startsWith (stringOf img) ''data:image/''
      then (Inl InvalidImageData, st)
      else
        (case getUserId e (localStorage st) of
           Inl err \<Rightarrow> (Inl err, st)
         | Inr (userId, ls) \<Rightarrow>
             (case db st of
                None \<Rightarrow>
                  (case setItem (localKey userId (stringOf chr)) (stringOf img) ls of
                     Inl err \<Rightarrow> (Inl LocalStorageNotAvailable, st\<lparr>localStorage := ls\<rparr>)
                   | Inr ls' \<Rightarrow> (Inr (localKey userId (stringOf chr)), st\<lparr>localStorage := ls'\<rparr>))
              | Some fs \<Rightarrow>
                  (case addDoc e \<lparr>doc_char = chr, doc_imageData = img,
                                  doc_createdAt = server_time e, doc_sourceUserId = userId\<rparr> fs of
                     Inl code \<Rightarrow> (Inl (translate code), st\<lparr>localStorage := ls\<rparr>)
                   | Inr (glyphId, fs1) \<Rightarrow>
                       (case setDoc_merge e userId (''charMap.'' @ stringOf chr) (FString glyphId) fs1 of
                          Inl code \<Rightarrow> (Inl (translate code), \<lparr>localStorage = ls, db = Some fs1\<rparr>)
                        | Inr fs2 \<Rightarrow> (Inr glyphId, \<lparr>localStorage = ls, db = Some fs2\<rparr>))))))"

subsection \<open>Glyph store: loading the user's own glyphs\<close>

text \<open>
  An entry of the result is the object \<^verbatim>\<open>{imageData, source}\<close>, the source being
  \<^verbatim>\<open>'user'\<close> or \<^verbatim>\<open>'global'\<close>.
\<close>

datatype source_tag = SourceUser | SourceGlobal

record entry =
  imageData :: jsval
  source :: source_tag

text \<open>
  The module uses plain objects as dictionaries. A plain object has its own properties
  and a prototype, at first \<^verbatim>\<open>Object.prototype\<close>, whose members every object inherits.
\<close>

definition objectPrototypeNames :: "string list" where
  "objectPrototypeNames =
     [''constructor'', ''__defineGetter__'', ''__defineSetter__'', ''hasOwnProperty'',
      ''__lookupGetter__'', ''__lookupSetter__'', ''isPrototypeOf'', ''propertyIsEnumerable'',
      ''toString'', ''valueOf'', ''__proto__'', ''toLocaleString'']"

text \<open>
  \<^verbatim>\<open>letteringImages\<close>, whose values are entries: \<open>props\<close> are its own properties (what
  \<^verbatim>\<open>Object.entries\<close> lists), \<open>proto\<close> is \<open>None\<close> while the prototype is
  \<^verbatim>\<open>Object.prototype\<close> and \<open>Some ent\<close> once it has been replaced by the entry \<open>ent\<close>.
\<close>

record js_object =
  props :: "string \<Rightarrow> entry option"
  proto :: "entry option"

definition emptyObject :: js_object where
  "emptyObject = \<lparr>props = Map.empty, proto = None\<rparr>"

text \<open>
  \<^verbatim>\<open>obj[k] = v\<close> for an entry \<open>v\<close>: an own property, except that the key
  \<^verbatim>\<open>__proto__\<close> is the setter of \<^verbatim>\<open>Object.prototype\<close>, which makes the object \<open>v\<close> the
  prototype and creates no property.
\<close>

definition setProp :: "js_object \<Rightarrow> string \<Rightarrow> entry \<Rightarrow> js_object" where
  "setProp obj k v =
     (if k = ''__proto__'' then obj\<lparr>proto := Some v\<rparr> else obj\<lparr>props := (props obj)(k \<mapsto> v)\<rparr>)"

text \<open>
  Whether \<^verbatim>\<open>obj[k]\<close> is truthy: an own property is an entry, so it is; otherwise the
  value is inherited, from the entry that has become the prototype (its \<^verbatim>\<open>imageData\<close> and
  \<^verbatim>\<open>source\<close>) and from \<^verbatim>\<open>Object.prototype\<close>, whose members are functions (and, for
  \<^verbatim>\<open>__proto__\<close>, the prototype itself).
\<close>

definition getTruthy :: "js_object \<Rightarrow> string \<Rightarrow> bool" where
  "getTruthy obj k =
     (case props obj k of
        Some v \<Rightarrow> True
      | None \<Rightarrow>
          (case proto obj of
             None \<Rightarrow> k \<in> set objectPrototypeNames
           | Some ent \<Rightarrow>
               (k = ''imageData'' \<and> truthy (imageData ent)) \<or> k = ''source''
               \<or> k \<in> set objectPrototypeNames))"

text \<open>
  The object that \<^verbatim>\<open>obj[k] = v\<close>, done on \<^verbatim>\<open>{}\<close> for every \<open>k\<close> and \<open>v\<close> with
  \<open>f k = Some v\<close>, leaves.
\<close>

definition objectFrom :: "(string \<Rightarrow> entry option) \<Rightarrow> js_object" where
  "objectFrom f = \<lparr>props = f(''__proto__'' := None), proto = f ''__proto__''\<rparr>"

text \<open>
  \<^verbatim>\<open>letterings\<close> and \<^verbatim>\<open>charMap\<close> are given by their own properties alone: they are
  returned, and read by their keys. \<^verbatim>\<open>obj[k] = v\<close> on them is an own property as well,
  and for the key \<^verbatim>\<open>__proto__\<close> no property (the setter ignores a value that is not an
  object, and makes one that is the prototype).
\<close>

definition setValue :: "(string \<Rightarrow> 'v option) \<Rightarrow> string \<Rightarrow> 'v \<Rightarrow> (string \<Rightarrow> 'v option)" where
  "setValue m k v = (if k = ''__proto__'' then m else m(k \<mapsto> v))"

text \<open>
  \<^verbatim>\<open>s.replace(p, r)\<close> with a string pattern: the first occurrence of \<open>p\<close> in \<open>s\<close> is
  replaced (\<open>r\<close> has no \<^verbatim>\<open>$\<close> in this module: it is the empty string).
\<close>

fun replace :: "string \<Rightarrow> string \<Rightarrow> string \<Rightarrow> string" where
  "replace p r [] = (if p = [] then r else [])"
| "replace p r (x # xs) =
     (if prefix p (x # xs) then r @ drop (length p) (x # xs) else x # replace p r xs)"

definition local_prefix :: "string \<Rightarrow> string" where
  "local_prefix userId = ''local_glyph_'' @ userId @ ''_''"

text \<open>
  The loop over \<^verbatim>\<open>localStorage.key(i)\<close> in \<^verbatim>\<open>loadLetteringsForInteraction\<close>, which fills
  \<^verbatim>\<open>letteringImages\<close> and \<^verbatim>\<open>charMap\<close>, and the one in \<^verbatim>\<open>loadUserLetterings\<close>, which
  fills \<^verbatim>\<open>letterings\<close>.
\<close>

fun scanInteraction ::
  "local_storage \<Rightarrow> string \<Rightarrow> string list \<Rightarrow>
   js_object \<times> (string \<Rightarrow> string option) \<Rightarrow>
   js_object \<times> (string \<Rightarrow> string option)" where
  "scanInteraction ls pfx [] acc = acc"
| "scanInteraction ls pfx (key # keys) (letteringImages, charMap) =
     scanInteraction ls pfx keys
       (if key \<noteq> [] \<and> startsWith key pfx
        then (case getItem ls key of
                None \<Rightarrow> (letteringImages, charMap)
              | Some v \<Rightarrow>
                  if v \<noteq> []
                  then (setProp letteringImages (replace pfx [] key)
                          \<lparr>imageData = JString v, source = SourceUser\<rparr>,
                        setValue charMap (replace pfx [] key) key)
                  else (letteringImages, charMap))
        else (letteringImages, charMap))"

fun scanUser ::
  "local_storage \<Rightarrow> string \<Rightarrow> string list \<Rightarrow> (string \<Rightarrow> jsval option) \<Rightarrow>
   (string \<Rightarrow> jsval option)" where
  "scanUser ls pfx [] letterings = letterings"
| "scanUser ls pfx (key # keys) letterings =
     scanUser ls pfx keys
       (if key \<noteq> [] \<and> startsWith key pfx
        then (case getItem ls key of
                None \<Rightarrow> letterings
              | Some v \<Rightarrow>
                  if v \<noteq> [] then setValue letterings (replace pfx [] key) (JString v)
                  else letterings)
        else letterings)"

text \<open>
  The remote path reads the user's document, then one glyph for each entry of its
  \<^verbatim>\<open>charMap\<close>; an entry whose glyph cannot be read or does not exist is skipped. The
  entries have distinct keys and are independent of one another, so the assignments are
  given key by key.
\<close>

definition fetchGlyph :: "env \<Rightarrow> firestore \<Rightarrow> string \<Rightarrow> string \<Rightarrow> jsval option" where
  "fetchGlyph e fs c glyphId =
     (if getGlyphDoc_error e c then None
      else map_option doc_imageData (map_of (globalGlyphs fs) glyphId))"

definition loadLetteringsForInteraction ::
  "env \<Rightarrow> state \<Rightarrow> (error + (js_object \<times> fs_value)) \<times> state" where
  "loadLetteringsForInteraction e st =
     (case getUserId e (localStorage st) of
        Inl err \<Rightarrow> (Inl err, st)
      | Inr (userId, ls) \<Rightarrow>
          (case db st of
             None \<Rightarrow>
               (let (letteringImages, charMap) =
                      scanInteraction ls (local_prefix userId) (map fst (items ls))
                        (emptyObject, Map.empty)
                in (Inr (letteringImages, FMap charMap), st\<lparr>localStorage := ls\<rparr>))
           | Some fs \<Rightarrow>
               if getUserDoc_error e
               then (Inr (emptyObject, FMap Map.empty), st\<lparr>localStorage := ls\<rparr>)
               else
                 (let charMap = (case userGlyphs fs userId of
                                   None \<Rightarrow> FMap Map.empty
                                 | Some d \<Rightarrow> orEmpty (d ''charMap''))
                  in (Inr (objectFrom
                             (\<lambda>c. case entries charMap c of
                                    None \<Rightarrow> None
                                  | Some glyphId \<Rightarrow>
                                      map_option (\<lambda>v. \<lparr>imageData = v, source = SourceUser\<rparr>)
                                        (fetchGlyph e fs c glyphId)),
                           charMap),
                      st\<lparr>localStorage := ls\<rparr>))))"

definition loadUserLetterings ::
  "env \<Rightarrow> state \<Rightarrow> (error + (string \<Rightarrow> jsval option)) \<times> state" where
  "loadUserLetterings e st =
     (case getUserId e (localStorage st) of
        Inl err \<Rightarrow> (Inl err, st)
      | Inr (userId, ls) \<Rightarrow>
          (case db st of
             None \<Rightarrow>
               (Inr (scanUser ls (local_prefix userId) (map fst (items ls)) Map.empty),
                st\<lparr>localStorage := ls\<rparr>)
           | Some fs \<Rightarrow>
               if getUserDoc_error e
               then (Inr Map.empty, st\<lparr>localStorage := ls\<rparr>)
               else
                 (case userGlyphs fs userId of
                    None \<Rightarrow> (Inr Map.empty, st\<lparr>localStorage := ls\<rparr>)
                  | Some d \<Rightarrow>
                      (Inr ((\<lambda>c. case entries (orEmpty (d ''charMap'')) c of
                                    None \<Rightarrow> None
                                  | Some glyphId \<Rightarrow> fetchGlyph e fs c glyphId)
                            (''__proto__'' := None)),
                       st\<lparr>localStorage := ls\<rparr>))))"

subsection \<open>Glyph store: the global pool\<close>

text \<open>
  The images of the documents whose \<^verbatim>\<open>char\<close> is the string \<open>c\<close>, as the query and the
  \<^verbatim>\<open>forEach\<close> collect them.
\<close>

definition matchingGlyphs :: "firestore \<Rightarrow> string \<Rightarrow> jsval list" where
  "matchingGlyphs fs c =
     map (\<lambda>p. doc_imageData (snd p)) (filter (\<lambda>p. doc_char (snd p) = JString c) (globalGlyphs fs))"

text \<open>
  \<^verbatim>\<open>Math.floor(Math.random() * n)\<close> in double precision. The product of the double
  \<open>m / 2 ^ (53 + p)\<close> and the integer \<open>n\<close> is \<open>m * n / 2 ^ (53 + p)\<close> rounded to 53
  significant bits, ties to even; \<open>round53\<close> rounds the numerator.
\<close>

fun bit_length :: "nat \<Rightarrow> nat" where
  "bit_length n = (if n = 0 then 0 else Suc (bit_length (n div 2)))"

declare bit_length.simps [simp del]

definition round53 :: "nat \<Rightarrow> nat" where
  "round53 N =
     (if N < 2 ^ 53 then N
      else
        (let s = bit_length N - 53;
             q = N div 2 ^ s;
             r = N mod 2 ^ s;
             half = 2 ^ (s - 1)
         in (if half < r \<or> (r = half \<and> odd q) then q + 1 else q) * 2 ^ s))"

definition randomIndex :: "53 word \<times> nat \<Rightarrow> nat \<Rightarrow> nat" where
  "randomIndex r n = round53 (unat (fst r) * n) div 2 ^ (53 + snd r)"

text \<open>
  \<^verbatim>\<open>getRandomGlobalGlyph(char)\<close>, as the \<open>i\<close>-th lookup of a resolution; \<open>None\<close> is
  \<^verbatim>\<open>null\<close>, and an index out of range gives \<^verbatim>\<open>undefined\<close>.
\<close>

definition getRandomGlobalGlyph :: "env \<Rightarrow> firestore option \<Rightarrow> nat \<Rightarrow> string \<Rightarrow> jsval option" where
  "getRandomGlobalGlyph e dbo i c =
     (case dbo of
        None \<Rightarrow> None
      | Some fs \<Rightarrow>
          if getDocs_error e i c then None
          else
            (let glyphs = matchingGlyphs fs c
             in if glyphs = [] then None
                else if randomIndex (random e i) (length glyphs) < length glyphs
                then Some (glyphs ! randomIndex (random e i) (length glyphs))
                else Some JUndefined))"

subsection \<open>Resolution engine\<close>

text \<open>
  Step 2 of \<^verbatim>\<open>loadAllLetteringsForInteraction\<close>: one callback for each missing character,
  numbered from \<open>i\<close>. A callback that gets a truthy image records the entry and then logs
  \<^verbatim>\<open>globalImageData.substring(0, 50)\<close>, which throws when the image is not a string; the
  flag says whether a callback has thrown, in which case \<^verbatim>\<open>Promise.all\<close> rejects. The
  callbacks run concurrently in the source; each writes only the entry of its own
  character, so they are taken in the order of the list (the order matters only to which
  of several draws for a repeated character stays).
\<close>

fun globalLookups ::
  "env \<Rightarrow> firestore option \<Rightarrow> nat \<Rightarrow> string list \<Rightarrow> bool \<times> js_object \<Rightarrow> bool \<times> js_object" where
  "globalLookups e dbo i [] acc = acc"
| "globalLookups e dbo i (c # cs) (thrown, letteringImages) =
     globalLookups e dbo (Suc i) cs
       (case getRandomGlobalGlyph e dbo i c of
          None \<Rightarrow> (thrown, letteringImages)
        | Some globalImageData \<Rightarrow>
            if truthy globalImageData
            then (thrown \<or> \<not> isString globalImageData,
                  setProp letteringImages c \<lparr>imageData = globalImageData, source = SourceGlobal\<rparr>)
            else (thrown, letteringImages))"

definition validChars :: "jsval list \<Rightarrow> string list" where
  "validChars requiredChars =
     map stringOf (filter (\<lambda>v. isString v \<and> length (stringOf v) > 0) requiredChars)"

text \<open>
  \<^verbatim>\<open>loadAllLetteringsForInteraction(requiredChars)\<close>. Step 1 assigns every own property of
  the user's letterings to a new object; step 2 looks up the valid characters \<open>c\<close> for
  which \<^verbatim>\<open>letteringImages[c]\<close> is falsy.
\<close>

definition loadAllLetteringsForInteraction ::
  "env \<Rightarrow> jsval \<Rightarrow> state \<Rightarrow> (error + js_object) \<times> state" where
  "loadAllLetteringsForInteraction e requiredChars st =
     (case requiredChars of
        JArray xs \<Rightarrow>
          (case loadLetteringsForInteraction e st of
             (Inl err, st') \<Rightarrow> (Inl err, st')
           | (Inr (userLetterings, charMap), st') \<Rightarrow>
               (let letteringImages = objectFrom (props userLetterings);
                    missingChars = filter (\<lambda>c. \<not> getTruthy letteringImages c) (validChars xs)
                in (case globalLookups e (db st') 0 missingChars (False, letteringImages) of
                      (True, result) \<Rightarrow> (Inl TypeError, st')
                    | (False, result) \<Rightarrow> (Inr result, st'))))
      | _ \<Rightarrow> (Inr emptyObject, st))"

section \<open>Example states\<close>

text \<open>
  Two environments, two images, and the states the properties below are run on: a device
  that has never been used; a device without Firebase before and after the user
  \<^verbatim>\<open>user_1_x\<close> saves the letter \<^verbatim>\<open>a\<close>, after the same user saves under the name
  \<^verbatim>\<open>__proto__\<close>, and with an entry whose value is the empty string; a device without
  Firebase that two identities, \<^verbatim>\<open>user_1_x_9\<close> and then \<^verbatim>\<open>user_1_x\<close>, have used; a fresh
  user \<^verbatim>\<open>user_2_y\<close> on a Firestore whose pool holds a glyph for \<^verbatim>\<open>A\<close> and one for the name
  \<^verbatim>\<open>constructor\<close>, and on one whose only glyph for \<^verbatim>\<open>A\<close> has the number 42 as its image;
  the user \<^verbatim>\<open>user_1_x\<close> on an empty Firestore, before and after saving \<^verbatim>\<open>a\<close> and then
  \<^verbatim>\<open>b\<close>; and the same user on a Firestore where \<^verbatim>\<open>user_9_z\<close> has drawn an \<^verbatim>\<open>a\<close>, before
  and after saving an \<^verbatim>\<open>a\<close> too.
\<close>

definition ex_env :: env where
  "ex_env = \<lparr>now = 1700000000000, random_suffix = ''k3x9q'', random = (\<lambda>i. (0, 0)), auto_id = ''g1'',
             server_time = 1700000000001, addDoc_error = None, setDoc_error = None,
             getUserDoc_error = False, getGlyphDoc_error = (\<lambda>c. False),
             getDocs_error = (\<lambda>i c. False)\<rparr>"

definition ex_env2 :: env where
  "ex_env2 = \<lparr>now = 1700000000999, random_suffix = ''zz81p'', random = (\<lambda>i. (1, 0)), auto_id = ''g2'',
              server_time = 1700000001000, addDoc_error = None, setDoc_error = None,
              getUserDoc_error = False, getGlyphDoc_error = (\<lambda>c. False),
              getDocs_error = (\<lambda>i c. False)\<rparr>"

definition ex_img1 :: string where
  "ex_img1 = ''data:image/png;base64,AAAA''"

definition ex_img2 :: string where
  "ex_img2 = ''data:image/png;base64,BBBB''"

definition ex_fresh :: local_storage where
  "ex_fresh = \<lparr>items = [], quota = 5000000\<rparr>"

definition ex_local :: state where
  "ex_local = \<lparr>localStorage = \<lparr>items = [(''absurde_user_id'', ''user_1_x'')], quota = 5000000\<rparr>,
               db = None\<rparr>"

definition ex_local_saved :: state where
  "ex_local_saved =
     \<lparr>localStorage = \<lparr>items = [(''absurde_user_id'', ''user_1_x''),
                               (''local_glyph_user_1_x_a'', ''data:image/png;base64,AAAA'')],
                      quota = 5000000\<rparr>,
      db = None\<rparr>"

definition ex_local_proto :: state where
  "ex_local_proto =
     \<lparr>localStorage = \<lparr>items = [(''absurde_user_id'', ''user_1_x''),
                               (''local_glyph_user_1_x___proto__'', ''data:image/png;base64,AAAA'')],
                      quota = 5000000\<rparr>,
      db = None\<rparr>"

definition ex_local_blank :: state where
  "ex_local_blank =
     \<lparr>localStorage = \<lparr>items = [(''absurde_user_id'', ''user_1_x''),
                               (''local_glyph_user_1_x_b'', '''')],
                      quota = 5000000\<rparr>,
      db = None\<rparr>"

definition ex_local_other :: state where
  "ex_local_other =
     \<lparr>localStorage = \<lparr>items = [(''absurde_user_id'', ''user_1_x_9'')], quota = 5000000\<rparr>,
      db = None\<rparr>"

definition ex_local_shared :: state where
  "ex_local_shared =
     \<lparr>localStorage = \<lparr>items = [(''absurde_user_id'', ''user_1_x''),
                               (''local_glyph_user_1_x_9_a'', ''data:image/png;base64,AAAA'')],
                      quota = 5000000\<rparr>,
      db = None\<rparr>"

definition ex_pool :: firestore where
  "ex_pool =
     \<lparr>globalGlyphs =
        [(''g0'', \<lparr>doc_char = JString ''A'', doc_imageData = JString ''data:image/png;base64,AAAA'',
                   doc_createdAt = 1699999999999, doc_sourceUserId = ''user_1_x''\<rparr>),
         (''g5'', \<lparr>doc_char = JString ''constructor'',
                   doc_imageData = JString ''data:image/png;base64,BBBB'',
                   doc_createdAt = 1699999999999, doc_sourceUserId = ''user_1_x''\<rparr>)],
      userGlyphs = Map.empty\<rparr>"

definition ex_remote :: state where
  "ex_remote =
     \<lparr>localStorage = \<lparr>items = [(''absurde_user_id'', ''user_2_y'')], quota = 5000000\<rparr>,
      db = Some ex_pool\<rparr>"

definition ex_remote_malformed :: state where
  "ex_remote_malformed =
     \<lparr>localStorage = \<lparr>items = [(''absurde_user_id'', ''user_2_y'')], quota = 5000000\<rparr>,
      db = Some \<lparr>globalGlyphs =
                   [(''g7'', \<lparr>doc_char = JString ''A'', doc_imageData = JNumber 42,
                              doc_createdAt = 1699999999999, doc_sourceUserId = ''user_3_w''\<rparr>)],
                 userGlyphs = Map.empty\<rparr>\<rparr>"

definition ex_remote_new :: state where
  "ex_remote_new =
     \<lparr>localStorage = \<lparr>items = [(''absurde_user_id'', ''user_1_x'')], quota = 5000000\<rparr>,
      db = Some \<lparr>globalGlyphs = [], userGlyphs = Map.empty\<rparr>\<rparr>"

definition ex_remote_one :: state where
  "ex_remote_one = snd (saveLettering ex_env (JString ''a'') (JString ex_img1) ex_remote_new)"

definition ex_remote_two :: state where
  "ex_remote_two = snd (saveLettering ex_env2 (JString ''b'') (JString ex_img2) ex_remote_one)"

definition ex_remote_taken :: state where
  "ex_remote_taken =
     \<lparr>localStorage = \<lparr>items = [(''absurde_user_id'', ''user_1_x'')], quota = 5000000\<rparr>,
      db = Some \<lparr>globalGlyphs =
                   [(''g0'', \<lparr>doc_char = JString ''a'',
                              doc_imageData = JString ''data:image/png;base64,BBBB'',
                              doc_createdAt = 1699999999999, doc_sourceUserId = ''user_9_z''\<rparr>)],
                 userGlyphs = Map.empty\<rparr>\<rparr>"

definition ex_remote_taken_saved :: state where
  "ex_remote_taken_saved =
     \<lparr>localStorage = \<lparr>items = [(''absurde_user_id'', ''user_1_x'')], quota = 5000000\<rparr>,
      db = Some \<lparr>globalGlyphs =
                   [(''g0'', \<lparr>doc_char = JString ''a'',
                              doc_imageData = JString ''data:image/png;base64,BBBB'',
                              doc_createdAt = 1699999999999, doc_sourceUserId = ''user_9_z''\<rparr>),
                    (''g1'', \<lparr>doc_char = JString ''a'',
                              doc_imageData = JString ''data:image/png;base64,AAAA'',
                              doc_createdAt = 1700000000001, doc_sourceUserId = ''user_1_x''\<rparr>)],
                 userGlyphs = Map.empty(''user_1_x'' \<mapsto> Map.empty(''charMap.a'' \<mapsto> FString ''g1''))\<rparr>\<rparr>"

section \<open>Properties\<close>

subsection \<open>Local storage and identity\<close>

lemmas eval_defs = getUserId_def getItem_def setItem_def storage_size_def USER_ID_KEY_def
  new_token_def localKey_def local_prefix_def startsWith_def Let_def

lemmas save_defs = saveLettering_def addDoc_def setDoc_merge_def

lemma getItem_setItem:
  "setItem k v ls = Inr ls' \<Longrightarrow> getItem ls' k' = (if k' = k then Some v else getItem ls k')"
  by (auto simp: setItem_def getItem_def Let_def update_conv' split: if_splits)

lemma getItem_key: "getItem ls k = Some v \<Longrightarrow> k \<in> fst ` set (items ls)"
  by (metis getItem_def map_of_eq_None_iff option.distinct(1))

lemma new_token_nonempty: "new_token e \<noteq> []"
  by (simp add: new_token_def)

lemma getUserId_stored:
  "getItem ls USER_ID_KEY = Some u \<Longrightarrow> u \<noteq> [] \<Longrightarrow> getUserId e ls = Inr (u, ls)"
  by (simp add: getUserId_def)

lemma getUserId_persists:
  assumes "getUserId e ls = Inr (u, ls')"
  shows "getItem ls' USER_ID_KEY = Some u \<and> u \<noteq> []"
proof (cases "getItem ls USER_ID_KEY = None \<or> getItem ls USER_ID_KEY = Some []")
  case True
  with assms obtain "setItem USER_ID_KEY (new_token e) ls = Inr ls'" and "u = new_token e"
    by (auto simp: getUserId_def split: sum.splits)
  then show ?thesis
    by (simp add: getItem_setItem new_token_nonempty)
next
  case False
  with assms show ?thesis
    by (auto simp: getUserId_def)
qed

lemma localKey_prefix: "localKey u c = local_prefix u @ c"
  by (simp add: localKey_def local_prefix_def)

lemma local_prefix_nonempty: "local_prefix u \<noteq> []"
  by (simp add: local_prefix_def)

lemma localKey_not_id: "localKey u c \<noteq> USER_ID_KEY"
  by (simp add: localKey_def USER_ID_KEY_def)

lemma marker_nonempty: "startsWith v ''data:image/'' \<Longrightarrow> v \<noteq> []"
  by (auto simp: startsWith_def)

text \<open>
  C8. With no token stored and a local storage that accepts the write, the first call of
  \<^verbatim>\<open>getUserId\<close> returns \<^verbatim>\<open>'user_' + Date.now() + '_' + suffix\<close> and stores it under
  \<^verbatim>\<open>absurde_user_id\<close>; every later call, whatever the clock and the random source then
  are, returns that same token and leaves the storage as it is.
\<close>

theorem getUserId_idempotent:
  assumes "getItem ls USER_ID_KEY = None"
    and "setItem USER_ID_KEY (''user_'' @ show_int (now e) @ ''_'' @ random_suffix e) ls = Inr ls'"
  shows "getUserId e ls = Inr (''user_'' @ show_int (now e) @ ''_'' @ random_suffix e, ls')
       \<and> getItem ls' USER_ID_KEY = Some (''user_'' @ show_int (now e) @ ''_'' @ random_suffix e)
       \<and> (\<forall>e'. getUserId e' ls' = Inr (''user_'' @ show_int (now e) @ ''_'' @ random_suffix e, ls'))"
proof -
  let ?t = "''user_'' @ show_int (now e) @ ''_'' @ random_suffix e"
  have t: "new_token e = ?t" by (simp add: new_token_def)
  have first: "getUserId e ls = Inr (?t, ls')"
    using assms by (simp add: getUserId_def t)
  have stored: "getItem ls' USER_ID_KEY = Some ?t"
    using assms(2) by (simp add: getItem_setItem)
  have "getUserId e' ls' = Inr (?t, ls')" for e'
    using stored by (intro getUserId_stored) simp_all
  with first stored show ?thesis by blast
qed

text \<open>
  On a device never used before, the first call at time 1700000000000 mints
  \<^verbatim>\<open>user_1700000000000_k3x9q\<close>; a second call, later and with another random suffix,
  returns it again.
\<close>

theorem getUserId_idempotent_witness:
  "getItem ex_fresh USER_ID_KEY = None
   \<and> getUserId ex_env ex_fresh =
       Inr (''user_1700000000000_k3x9q'',
            \<lparr>items = [(''absurde_user_id'', ''user_1700000000000_k3x9q'')], quota = 5000000\<rparr>)
   \<and> getUserId ex_env2 \<lparr>items = [(''absurde_user_id'', ''user_1700000000000_k3x9q'')], quota = 5000000\<rparr> =
       Inr (''user_1700000000000_k3x9q'',
            \<lparr>items = [(''absurde_user_id'', ''user_1700000000000_k3x9q'')], quota = 5000000\<rparr>)"
proof -
  have tok: "''user_'' @ show_int (now ex_env) @ ''_'' @ random_suffix ex_env = ''user_1700000000000_k3x9q''"
    by (simp add: ex_env_def show_int_def show_nat.simps digit_char_def)
  have h1: "getItem ex_fresh USER_ID_KEY = None"
    by (simp add: ex_fresh_def getItem_def)
  have h2: "setItem USER_ID_KEY (''user_'' @ show_int (now ex_env) @ ''_'' @ random_suffix ex_env) ex_fresh
      = Inr \<lparr>items = [(''absurde_user_id'', ''user_1700000000000_k3x9q'')], quota = 5000000\<rparr>"
    unfolding tok by (simp add: ex_fresh_def setItem_def storage_size_def USER_ID_KEY_def)
  from getUserId_idempotent [OF h1 h2] h1 show ?thesis
    unfolding tok by blast
qed

subsection \<open>Saving\<close>

text \<open>
  C3. When \<^verbatim>\<open>char\<close> is not a non-empty string, or \<^verbatim>\<open>imageData\<close> is not a non-empty
  string that starts with \<^verbatim>\<open>data:image/\<close>, \<^verbatim>\<open>saveLettering\<close> throws one of its two
  validation errors and leaves local storage and the remote store exactly as they were:
  the checks come before the first read of either.
\<close>

theorem saveLettering_invalid_input:
  assumes "\<not> (isString chr \<and> stringOf chr \<noteq> [])
         \<or> \<not> (isString img \<and> stringOf img \<noteq> [] \<and> startsWith (stringOf img) ''data:image/'')"
  shows "\<exists>err. saveLettering e chr img st = (Inl err, st) \<and> isInvalidInput err"
  using assms by (cases chr; cases img) (auto simp: saveLettering_def)

text \<open>
  The empty character, a string that is not a data URL, and \<^verbatim>\<open>undefined\<close> for the
  character.
\<close>

theorem saveLettering_invalid_input_witness:
  "saveLettering ex_env (JString '''') (JString ex_img1) ex_remote = (Inl InvalidCharacter, ex_remote)
   \<and> saveLettering ex_env (JString ''a'') (JString ''not-an-image'') ex_remote
       = (Inl InvalidImageData, ex_remote)
   \<and> saveLettering ex_env JUndefined (JString ex_img1) ex_local = (Inl InvalidCharacter, ex_local)"
proof -
  from saveLettering_invalid_input [of "JString ''''" "JString ex_img1" ex_env ex_remote]
  obtain err1 where 1: "saveLettering ex_env (JString '''') (JString ex_img1) ex_remote = (Inl err1, ex_remote)"
    by auto
  from saveLettering_invalid_input [of "JString ''a''" "JString ''not-an-image''" ex_env ex_remote]
  obtain err2 where 2: "saveLettering ex_env (JString ''a'') (JString ''not-an-image'') ex_remote = (Inl err2, ex_remote)"
    by (auto simp: startsWith_def)
  from saveLettering_invalid_input [of JUndefined "JString ex_img1" ex_env ex_local]
  obtain err3 where 3: "saveLettering ex_env JUndefined (JString ex_img1) ex_local = (Inl err3, ex_local)"
    by auto
  have "err1 = InvalidCharacter" using 1 by (simp add: saveLettering_def)
  moreover have "err2 = InvalidImageData" using 2 by (simp add: saveLettering_def startsWith_def)
  moreover have "err3 = InvalidCharacter" using 3 by (simp add: saveLettering_def)
  ultimately show ?thesis using 1 2 3 by simp
qed

text \<open>
  What a save does to the remote store: the pool keeps its documents and gains at most
  one, whose image starts with the marker, so a pool without empty images stays one; and
  no document of \<^verbatim>\<open>userGlyphs\<close> gets or loses a field called \<^verbatim>\<open>charMap\<close>, because the
  field a save writes is called \<^verbatim>\<open>charMap.<char>\<close>.
\<close>

lemma set_update_subset: "set (AList.update k v al) \<subseteq> insert (k, v) (set al)"
  by (induction al) auto

lemma saveLettering_pool:
  assumes "saveLettering e chr img st = (r, st')" and "db st = Some fs" and "db st' = Some fs'"
  shows "globalGlyphs fs' = globalGlyphs fs
       \<or> (isString img \<and> startsWith (stringOf img) ''data:image/''
          \<and> (\<exists>u. globalGlyphs fs' =
                 AList.update (auto_id e)
                   \<lparr>doc_char = chr, doc_imageData = img,
                    doc_createdAt = server_time e, doc_sourceUserId = u\<rparr> (globalGlyphs fs)))"
  using assms
  by (auto simp: save_defs split: if_splits sum.splits option.splits prod.splits) blast+

lemma saveLettering_pool_images:
  assumes "saveLettering e chr img st = (r, st')" and "db st = Some fs" and "db st' = Some fs'"
    and "\<forall>p \<in> set (globalGlyphs fs).
           isString (doc_imageData (snd p)) \<and> stringOf (doc_imageData (snd p)) \<noteq> []"
  shows "\<forall>p \<in> set (globalGlyphs fs').
           isString (doc_imageData (snd p)) \<and> stringOf (doc_imageData (snd p)) \<noteq> []"
proof
  fix p
  assume p: "p \<in> set (globalGlyphs fs')"
  from saveLettering_pool [OF assms(1-3)]
  show "isString (doc_imageData (snd p)) \<and> stringOf (doc_imageData (snd p)) \<noteq> []"
  proof
    assume "globalGlyphs fs' = globalGlyphs fs"
    with p assms(4) show ?thesis by simp
  next
    assume new: "isString img \<and> startsWith (stringOf img) ''data:image/''
          \<and> (\<exists>u. globalGlyphs fs' =
                 AList.update (auto_id e)
                   \<lparr>doc_char = chr, doc_imageData = img,
                    doc_createdAt = server_time e, doc_sourceUserId = u\<rparr> (globalGlyphs fs))"
    then obtain d where upd: "globalGlyphs fs' = AList.update (auto_id e) d (globalGlyphs fs)"
      and d: "doc_imageData d = img"
      by auto
    from p upd set_update_subset [of "auto_id e" d "globalGlyphs fs"]
    have "p = (auto_id e, d) \<or> p \<in> set (globalGlyphs fs)" by auto
    with assms(4) d marker_nonempty [of "stringOf img"] new show ?thesis by auto
  qed
qed

lemma saveLettering_remote:
  assumes "saveLettering e chr img st = (Inr g, st')" and "db st = Some fs"
  shows "\<exists>u fs'. getUserId e (localStorage st) = Inr (u, localStorage st') \<and> db st' = Some fs'
         \<and> map_of (globalGlyphs fs') g
             = Some \<lparr>doc_char = chr, doc_imageData = img, doc_createdAt = server_time e,
                      doc_sourceUserId = u\<rparr>
         \<and> (\<forall>uid. (case userGlyphs fs' uid of None \<Rightarrow> None | Some d \<Rightarrow> d ''charMap'')
                = (case userGlyphs fs uid of None \<Rightarrow> None | Some d \<Rightarrow> d ''charMap''))"
  using assms
  by (auto simp: save_defs update_conv' split: if_splits sum.splits option.splits prod.splits)

subsection \<open>The local scan\<close>

text \<open>
  What the two loops leave under a name \<open>c\<close>: the stored image of the key
  \<^verbatim>\<open><prefix><c>\<close>, when it is not the empty string; and nothing under \<^verbatim>\<open>__proto__\<close>,
  whatever is stored.
\<close>

lemma replace_prefix: "prefix p s \<Longrightarrow> replace p [] s = drop (length p) s"
  by (cases s) auto

lemma replace_append: "replace p [] (p @ c) = c"
  by (simp add: replace_prefix)

lemma scanUser_char:
  assumes "pfx \<noteq> []"
  shows "scanUser ls pfx keys acc c =
     (if c \<noteq> ''__proto__'' \<and> pfx @ c \<in> set keys \<and> (\<exists>v. getItem ls (pfx @ c) = Some v \<and> v \<noteq> [])
      then map_option JString (getItem ls (pfx @ c)) else acc c)"
proof (induction keys arbitrary: acc)
  case Nil
  show ?case by simp
next
  case (Cons key keys)
  show ?case
  proof (cases "prefix pfx key")
    case True
    then obtain c' where key: "key = pfx @ c'" by (auto simp: prefix_def)
    show ?thesis
    proof (cases "c' = c")
      case True
      with assms show ?thesis
        by (auto simp: Cons.IH key startsWith_def replace_append setValue_def split: option.splits)
    next
      case False
      with assms show ?thesis
        by (auto simp: Cons.IH key startsWith_def replace_append setValue_def split: option.splits)
    qed
  next
    case False
    then have "key \<noteq> pfx @ c" by auto
    with False show ?thesis
      by (simp add: Cons.IH startsWith_def)
  qed
qed

lemma scanInteraction_proto:
  "props (fst (scanInteraction ls pfx keys (li, cm))) ''__proto__'' = props li ''__proto__''"
  by (induction keys arbitrary: li cm) (auto simp: setProp_def split: option.splits)

lemma scanInteraction_other:
  assumes "pfx \<noteq> []" and "c \<noteq> ''__proto__''"
  shows "props (fst (scanInteraction ls pfx keys (li, cm))) c =
     (if pfx @ c \<in> set keys \<and> (\<exists>v. getItem ls (pfx @ c) = Some v \<and> v \<noteq> [])
      then map_option (\<lambda>v. \<lparr>imageData = JString v, source = SourceUser\<rparr>) (getItem ls (pfx @ c))
      else props li c)"
proof (induction keys arbitrary: li cm)
  case Nil
  show ?case by simp
next
  case (Cons key keys)
  show ?case
  proof (cases "prefix pfx key")
    case True
    then obtain c' where key: "key = pfx @ c'" by (auto simp: prefix_def)
    show ?thesis
    proof (cases "c' = c")
      case True
      with assms show ?thesis
        by (auto simp: Cons.IH key startsWith_def replace_append setProp_def split: option.splits)
    next
      case False
      with assms show ?thesis
        by (auto simp: Cons.IH key startsWith_def replace_append setProp_def split: option.splits)
    qed
  next
    case False
    then have "key \<noteq> pfx @ c" by auto
    with False show ?thesis
      by (simp add: Cons.IH startsWith_def)
  qed
qed

lemma scanInteraction_char:
  assumes "pfx \<noteq> []"
  shows "props (fst (scanInteraction ls pfx keys (li, cm))) c =
     (if c \<noteq> ''__proto__'' \<and> pfx @ c \<in> set keys \<and> (\<exists>v. getItem ls (pfx @ c) = Some v \<and> v \<noteq> [])
      then map_option (\<lambda>v. \<lparr>imageData = JString v, source = SourceUser\<rparr>) (getItem ls (pfx @ c))
      else props li c)"
proof (cases "c = ''__proto__''")
  case True
  then show ?thesis by (simp add: scanInteraction_proto)
next
  case False
  then show ?thesis by (simp add: scanInteraction_other [OF assms])
qed

lemma loadUserLetterings_local:
  assumes "db st = None" and "getUserId e (localStorage st) = Inr (u, ls)"
  shows "loadUserLetterings e st =
     (Inr (\<lambda>c. if c = ''__proto__'' then None
                else (case getItem ls (local_prefix u @ c) of
                        None \<Rightarrow> None
                      | Some v \<Rightarrow> if v \<noteq> [] then Some (JString v) else None)),
      st\<lparr>localStorage := ls\<rparr>)"
proof -
  have "scanUser ls (local_prefix u) (map fst (items ls)) Map.empty c =
     (if c = ''__proto__'' then None
      else (case getItem ls (local_prefix u @ c) of
              None \<Rightarrow> None | Some v \<Rightarrow> if v \<noteq> [] then Some (JString v) else None))" for c
    by (auto simp: scanUser_char [OF local_prefix_nonempty] getItem_key split: option.splits)
  then have "scanUser ls (local_prefix u) (map fst (items ls)) Map.empty =
     (\<lambda>c. if c = ''__proto__'' then None
      else (case getItem ls (local_prefix u @ c) of
              None \<Rightarrow> None | Some v \<Rightarrow> if v \<noteq> [] then Some (JString v) else None))"
    by (rule ext)
  with assms show ?thesis
    by (simp add: loadUserLetterings_def)
qed

lemma emptyObject_sel: "props emptyObject = Map.empty" "proto emptyObject = None"
  by (simp_all add: emptyObject_def)

lemma loadLetteringsForInteraction_local:
  assumes "db st = None" and "getUserId e (localStorage st) = Inr (u, ls)"
  shows "\<exists>own cm. loadLetteringsForInteraction e st = (Inr (own, cm), st\<lparr>localStorage := ls\<rparr>)
     \<and> props own =
        (\<lambda>c. if c = ''__proto__'' then None
              else (case getItem ls (local_prefix u @ c) of
                      None \<Rightarrow> None
                    | Some v \<Rightarrow>
                        if v \<noteq> [] then Some \<lparr>imageData = JString v, source = SourceUser\<rparr>
                        else None))"
proof -
  obtain li cm where sc: "scanInteraction ls (local_prefix u) (map fst (items ls))
                        (emptyObject, Map.empty) = (li, cm)"
    by (cases "scanInteraction ls (local_prefix u) (map fst (items ls)) (emptyObject, Map.empty)")
  have "props li c =
     (if c = ''__proto__'' then None
      else (case getItem ls (local_prefix u @ c) of
        None \<Rightarrow> None
      | Some v \<Rightarrow> if v \<noteq> [] then Some \<lparr>imageData = JString v, source = SourceUser\<rparr> else None))" for c
    using scanInteraction_char [OF local_prefix_nonempty, of ls u "map fst (items ls)" emptyObject Map.empty c]
    by (auto simp: sc getItem_key emptyObject_sel split: option.splits)
  then have "props li = (\<lambda>c. if c = ''__proto__'' then None
      else (case getItem ls (local_prefix u @ c) of
        None \<Rightarrow> None
      | Some v \<Rightarrow> if v \<noteq> [] then Some \<lparr>imageData = JString v, source = SourceUser\<rparr> else None))"
    by (rule ext)
  with assms sc show ?thesis
    by (simp add: loadLetteringsForInteraction_def)
qed



text \<open>
  C10, as the code has it. With Firebase not configured, both loaders return every stored
  image other than the empty string whose key starts with \<^verbatim>\<open>local_glyph_<id>_\<close> and
  whose rest is not \<^verbatim>\<open>__proto__\<close>, under the rest of the key. So an image stored for the
  identity \<^verbatim>\<open><id>_<more>\<close> and the character \<open>c\<close> is returned to the identity \<^verbatim>\<open><id>\<close> as
  well, under \<^verbatim>\<open><more>_<c>\<close>.
\<close>

theorem local_scan_by_prefix:
  assumes "db st = None" and "getUserId e (localStorage st) = Inr (idA, ls)"
  shows "\<exists>m own cm.
      loadUserLetterings e st = (Inr m, st\<lparr>localStorage := ls\<rparr>)
    \<and> loadLetteringsForInteraction e st = (Inr (own, cm), st\<lparr>localStorage := ls\<rparr>)
    \<and> (\<forall>k v. getItem ls k = Some v \<and> v \<noteq> [] \<and> startsWith k (local_prefix idA)
              \<and> drop (length (local_prefix idA)) k \<noteq> ''__proto__'' \<longrightarrow>
          m (drop (length (local_prefix idA)) k) = Some (JString v)
        \<and> props own (drop (length (local_prefix idA)) k)
            = Some \<lparr>imageData = JString v, source = SourceUser\<rparr>)
    \<and> (\<forall>more c v. getItem ls (localKey (idA @ ''_'' @ more) c) = Some v \<and> v \<noteq> []
              \<and> more @ ''_'' @ c \<noteq> ''__proto__'' \<longrightarrow>
          m (more @ ''_'' @ c) = Some (JString v)
        \<and> props own (more @ ''_'' @ c) = Some \<lparr>imageData = JString v, source = SourceUser\<rparr>)"
proof -
  define M where "M = (\<lambda>c. if c = ''__proto__'' then None
                else (case getItem ls (local_prefix idA @ c) of
                        None \<Rightarrow> None
                      | Some v \<Rightarrow> if v \<noteq> [] then Some (JString v) else None))"
  have m: "loadUserLetterings e st = (Inr M, st\<lparr>localStorage := ls\<rparr>)"
    unfolding M_def by (rule loadUserLetterings_local [OF assms])
  from loadLetteringsForInteraction_local [OF assms] obtain own cm
    where own: "loadLetteringsForInteraction e st = (Inr (own, cm), st\<lparr>localStorage := ls\<rparr>)"
      and props: "props own = (\<lambda>c. if c = ''__proto__'' then None
              else (case getItem ls (local_prefix idA @ c) of
                      None \<Rightarrow> None
                    | Some v \<Rightarrow>
                        if v \<noteq> [] then Some \<lparr>imageData = JString v, source = SourceUser\<rparr>
                        else None))"
    by blast
  have at: "M c = Some (JString v) \<and> props own c = Some \<lparr>imageData = JString v, source = SourceUser\<rparr>"
    if "getItem ls (local_prefix idA @ c) = Some v" "v \<noteq> []" "c \<noteq> ''__proto__''" for c v
    using that by (simp add: M_def props)
  have scan: "M (drop (length (local_prefix idA)) k) = Some (JString v)
        \<and> props own (drop (length (local_prefix idA)) k)
            = Some \<lparr>imageData = JString v, source = SourceUser\<rparr>"
    if "getItem ls k = Some v" "v \<noteq> []" "startsWith k (local_prefix idA)"
      "drop (length (local_prefix idA)) k \<noteq> ''__proto__''" for k v
  proof -
    from that(3) obtain c where k: "k = local_prefix idA @ c"
      by (auto simp: startsWith_def prefix_def)
    then have c: "drop (length (local_prefix idA)) k = c" by simp
    from that(1) k have "getItem ls (local_prefix idA @ c) = Some v" by simp
    from at [OF this that(2)] that(4) show ?thesis
      unfolding c by blast
  qed
  have key: "localKey (idA @ ''_'' @ more) c = local_prefix idA @ (more @ ''_'' @ c)" for more c
    by (simp add: localKey_def local_prefix_def)
  have other: "M (more @ ''_'' @ c) = Some (JString v)
        \<and> props own (more @ ''_'' @ c) = Some \<lparr>imageData = JString v, source = SourceUser\<rparr>"
    if "getItem ls (localKey (idA @ ''_'' @ more) c) = Some v" "v \<noteq> []"
      "more @ ''_'' @ c \<noteq> ''__proto__''" for more c v
  proof -
    from that(1) have "getItem ls (local_prefix idA @ (more @ ''_'' @ c)) = Some v"
      by (simp only: key)
    from at [OF this that(2,3)] show ?thesis .
  qed
  from m own scan other show ?thesis
    by blast
qed

text \<open>
  \<^verbatim>\<open>user_1_x_9\<close> saves \<^verbatim>\<open>a\<close>; the identity of the device then becomes \<^verbatim>\<open>user_1_x\<close>, whose
  letterings now hold that image under \<^verbatim>\<open>9_a\<close>.
\<close>

theorem local_scan_by_prefix_witness:
  "saveLettering ex_env (JString ''a'') (JString ex_img1) ex_local_other =
     (Inr ''local_glyph_user_1_x_9_a'',
      \<lparr>localStorage = \<lparr>items = [(''absurde_user_id'', ''user_1_x_9''),
                                (''local_glyph_user_1_x_9_a'', ''data:image/png;base64,AAAA'')],
                       quota = 5000000\<rparr>,
       db = None\<rparr>)
   \<and> setItem USER_ID_KEY ''user_1_x''
        \<lparr>items = [(''absurde_user_id'', ''user_1_x_9''),
                  (''local_glyph_user_1_x_9_a'', ''data:image/png;base64,AAAA'')],
         quota = 5000000\<rparr> = Inr (localStorage ex_local_shared)
   \<and> getUserId ex_env (localStorage ex_local_shared) = Inr (''user_1_x'', localStorage ex_local_shared)
   \<and> (\<exists>m. loadUserLetterings ex_env ex_local_shared = (Inr m, ex_local_shared)
          \<and> m ''9_a'' = Some (JString ex_img1))
   \<and> (\<exists>own cm. loadLetteringsForInteraction ex_env ex_local_shared = (Inr (own, cm), ex_local_shared)
          \<and> props own ''9_a'' = Some \<lparr>imageData = JString ex_img1, source = SourceUser\<rparr>)"
proof -
  have save: "saveLettering ex_env (JString ''a'') (JString ex_img1) ex_local_other =
     (Inr ''local_glyph_user_1_x_9_a'',
      \<lparr>localStorage = \<lparr>items = [(''absurde_user_id'', ''user_1_x_9''),
                                (''local_glyph_user_1_x_9_a'', ''data:image/png;base64,AAAA'')],
                       quota = 5000000\<rparr>,
       db = None\<rparr>)"
    by (simp add: saveLettering_def eval_defs ex_local_other_def ex_img1_def)
  have switch: "setItem USER_ID_KEY ''user_1_x''
        \<lparr>items = [(''absurde_user_id'', ''user_1_x_9''),
                  (''local_glyph_user_1_x_9_a'', ''data:image/png;base64,AAAA'')],
         quota = 5000000\<rparr> = Inr (localStorage ex_local_shared)"
    by (simp add: eval_defs ex_local_shared_def)
  have h1: "db ex_local_shared = None" by (simp add: ex_local_shared_def)
  have h2: "getUserId ex_env (localStorage ex_local_shared) = Inr (''user_1_x'', localStorage ex_local_shared)"
    by (simp add: eval_defs ex_local_shared_def)
  have st: "ex_local_shared\<lparr>localStorage := localStorage ex_local_shared\<rparr> = ex_local_shared" by simp
  from local_scan_by_prefix [OF h1 h2] obtain m own cm where
    m: "loadUserLetterings ex_env ex_local_shared = (Inr m, ex_local_shared)"
    and own: "loadLetteringsForInteraction ex_env ex_local_shared = (Inr (own, cm), ex_local_shared)"
    and other: "\<forall>more c v. getItem (localStorage ex_local_shared) (localKey (''user_1_x'' @ ''_'' @ more) c) = Some v
              \<and> v \<noteq> [] \<and> more @ ''_'' @ c \<noteq> ''__proto__'' \<longrightarrow>
          m (more @ ''_'' @ c) = Some (JString v)
        \<and> props own (more @ ''_'' @ c) = Some \<lparr>imageData = JString v, source = SourceUser\<rparr>"
    unfolding st by blast
  have "getItem (localStorage ex_local_shared) (localKey (''user_1_x'' @ ''_'' @ ''9'') ''a'') = Some ex_img1
        \<and> ex_img1 \<noteq> [] \<and> ''9'' @ ''_'' @ ''a'' \<noteq> ''__proto__''"
    by (simp add: eval_defs ex_local_shared_def ex_img1_def)
  from other [rule_format, OF this] have "m ''9_a'' = Some (JString ex_img1)"
    and "props own ''9_a'' = Some \<lparr>imageData = JString ex_img1, source = SourceUser\<rparr>"
    by simp_all
  with save switch h2 m own show ?thesis
    by simp
qed

text \<open>
  C10 as stated fails: not every entry whose key begins with the prefix is returned. The
  entry \<^verbatim>\<open>local_glyph_user_1_x___proto__\<close>, which a save of \<^verbatim>\<open>__proto__\<close> leaves, is in
  neither loader's result; nor is an entry whose value is the empty string.
\<close>

theorem local_scan_every_entry_counterexample:
  "getUserId ex_env (localStorage ex_local_proto) = Inr (''user_1_x'', localStorage ex_local_proto)
   \<and> getItem (localStorage ex_local_proto) ''local_glyph_user_1_x___proto__'' = Some ex_img1
   \<and> startsWith ''local_glyph_user_1_x___proto__'' (local_prefix ''user_1_x'')
   \<and> replace (local_prefix ''user_1_x'') [] ''local_glyph_user_1_x___proto__'' = ''__proto__''
   \<and> loadUserLetterings ex_env ex_local_proto = (Inr Map.empty, ex_local_proto)
   \<and> (\<exists>own. loadLetteringsForInteraction ex_env ex_local_proto
              = (Inr (own, FMap Map.empty), ex_local_proto)
          \<and> props own = Map.empty)
   \<and> getItem (localStorage ex_local_blank) ''local_glyph_user_1_x_b'' = Some ''''
   \<and> startsWith ''local_glyph_user_1_x_b'' (local_prefix ''user_1_x'')
   \<and> loadUserLetterings ex_env ex_local_blank = (Inr Map.empty, ex_local_blank)
   \<and> loadLetteringsForInteraction ex_env ex_local_blank
       = (Inr (emptyObject, FMap Map.empty), ex_local_blank)"
  by (simp add: loadUserLetterings_def loadLetteringsForInteraction_def ex_local_proto_def
      ex_local_blank_def ex_img1_def eval_defs emptyObject_def setProp_def setValue_def)

subsection \<open>The user's own letterings\<close>

lemma loadLetteringsForInteraction_total:
  assumes "getUserId e (localStorage st) = Inr (u, ls)"
  shows "\<exists>own cm. loadLetteringsForInteraction e st = (Inr (own, cm), st\<lparr>localStorage := ls\<rparr>)"
  using assms
  by (auto simp: loadLetteringsForInteraction_def Let_def split: option.splits prod.splits)

lemma loadLetteringsForInteraction_db:
  "loadLetteringsForInteraction e st = (r, st') \<Longrightarrow> db st' = db st"
  by (auto simp: loadLetteringsForInteraction_def Let_def split: sum.splits option.splits prod.splits if_splits)

lemma loadLetteringsForInteraction_props:
  assumes "loadLetteringsForInteraction e st = (Inr (own, cm), st')"
  shows "props own ''__proto__'' = None \<and> (\<forall>c d. props own c = Some d \<longrightarrow> source d = SourceUser)"
proof -
  from assms obtain u ls where u: "getUserId e (localStorage st) = Inr (u, ls)"
    by (auto simp: loadLetteringsForInteraction_def split: sum.splits)
  show ?thesis
  proof (cases "db st")
    case None
    from loadLetteringsForInteraction_local [OF None u] assms show ?thesis
      by (auto split: option.splits if_splits)
  next
    case (Some fs)
    with assms u show ?thesis
      by (auto simp: loadLetteringsForInteraction_def Let_def objectFrom_def emptyObject_def
          split: if_splits option.splits)
  qed
qed

lemma objectFrom_own:
  assumes "f ''__proto__'' = None"
  shows "objectFrom f = \<lparr>props = f, proto = None\<rparr>"
  using assms by (auto simp: objectFrom_def)

lemma getTruthy_plain:
  "getTruthy \<lparr>props = f, proto = None\<rparr> c \<longleftrightarrow> f c \<noteq> None \<or> c \<in> set objectPrototypeNames"
  by (auto simp: getTruthy_def split: option.splits)

lemma objectFrom_empty: "objectFrom Map.empty = emptyObject"
  by (simp add: objectFrom_def emptyObject_def)

text \<open>
  The remote loader and the two layouts of the user's document: without a field
  \<^verbatim>\<open>charMap\<close> it returns nothing; with the nested map that the documentation describes it
  returns the glyph each entry points to.
\<close>

lemma load_without_charMap:
  assumes "db st = Some fs" and "getItem (localStorage st) USER_ID_KEY = Some u" and "u \<noteq> []"
    and "(case userGlyphs fs u of None \<Rightarrow> None | Some d \<Rightarrow> d ''charMap'') = None"
  shows "loadLetteringsForInteraction e st = (Inr (emptyObject, FMap Map.empty), st)
       \<and> loadUserLetterings e st = (Inr Map.empty, st)"
  using assms
  by (auto simp: loadLetteringsForInteraction_def loadUserLetterings_def getUserId_stored
      objectFrom_empty split: option.splits)

lemma load_with_charMap:
  assumes "db st = Some fs" and "getItem (localStorage st) USER_ID_KEY = Some u" and "u \<noteq> []"
    and "\<not> getUserDoc_error e"
    and "userGlyphs fs u = Some d" and "d ''charMap'' = Some (FMap m)"
    and "m c = Some gid" and "c \<noteq> ''__proto__''"
    and "\<not> getGlyphDoc_error e c" and "map_of (globalGlyphs fs) gid = Some g"
  shows "\<exists>own cm letterings.
       loadLetteringsForInteraction e st = (Inr (own, cm), st)
     \<and> props own c = Some \<lparr>imageData = doc_imageData g, source = SourceUser\<rparr>
     \<and> loadUserLetterings e st = (Inr letterings, st)
     \<and> letterings c = Some (doc_imageData g)"
  using assms
  by (simp add: loadLetteringsForInteraction_def loadUserLetterings_def getUserId_stored
      objectFrom_def fetchGlyph_def)

subsection \<open>The global pool\<close>

text \<open>The index \<^verbatim>\<open>Math.floor(Math.random() * n)\<close> is below \<open>n\<close>.\<close>

lemma bit_length_bounds:
  "0 < n \<Longrightarrow> 2 ^ (bit_length n - 1) \<le> n \<and> n < 2 ^ bit_length n"
proof (induction n rule: bit_length.induct)
  case (1 n)
  show ?case
  proof (cases "n div 2 = 0")
    case True
    with "1.prems" have "n = 1" by (simp add: div_eq_0_iff) 
    then show ?thesis
      by (simp add: bit_length.simps [of "Suc 0"] bit_length.simps [of 0])
  next
    case False
    with "1.prems" "1.IH"
    have ih: "2 ^ (bit_length (n div 2) - 1) \<le> n div 2" "n div 2 < 2 ^ bit_length (n div 2)"
      by simp_all
    have pos: "0 < bit_length (n div 2)"
      using False by (simp add: bit_length.simps [of "n div 2"])
    have bl: "bit_length n = Suc (bit_length (n div 2))"
      using "1.prems" by (simp add: bit_length.simps [of n])
    have "(2::nat) ^ bit_length (n div 2) = 2 * 2 ^ (bit_length (n div 2) - 1)"
      using pos by (cases "bit_length (n div 2)") simp_all
    with ih(1) have lo: "(2::nat) ^ bit_length (n div 2) \<le> n" by linarith
    from ih(2) have hi: "n < 2 * 2 ^ bit_length (n div 2)" by linarith
    from lo hi show ?thesis by (simp add: bl)
  qed
qed

lemma round53_less:
  assumes m: "m < 2 ^ 53" and n: "0 < n"
  shows "round53 (m * n) < n * 2 ^ 53"
proof (cases "m * n < 2 ^ 53")
  case True
  have "(2::nat) ^ 53 \<le> n * 2 ^ 53" using n by simp
  with True m show ?thesis by (simp add: round53_def)
next
  case False
  define N where "N = m * n"
  define s where "s = bit_length N - 53"
  define q where "q = N div 2 ^ s"
  define r where "r = N mod 2 ^ s"
  have N: "(2::nat) ^ 53 \<le> N" using False by (simp add: N_def)
  then have Npos: "0 < N" by (metis gr0I not_numeral_le_zero power_eq_0_iff zero_neq_numeral le_zero_eq)
  from bit_length_bounds [OF Npos]
  have lo: "2 ^ (bit_length N - 1) \<le> N" and hi: "N < 2 ^ bit_length N" by simp_all
  have "\<not> bit_length N \<le> 53"
  proof
    assume "bit_length N \<le> 53"
    then have "(2::nat) ^ bit_length N \<le> 2 ^ 53" by (rule power_increasing) simp
    with hi N show False by linarith
  qed
  then have b: "53 < bit_length N" by simp
  then have s: "0 < s" and bs: "bit_length N - 1 = (s - 1) + 53"
    by (simp_all add: s_def)
  have split: "N = q * 2 ^ s + r"
    unfolding q_def r_def by (rule div_mult_mod_eq [symmetric])
  have half: "(2::nat) ^ s = 2 * 2 ^ (s - 1)"
    using s by (cases s) simp_all
  have Nlt: "N < n * 2 ^ 53"
    using m n by (simp add: N_def mult.commute)
  have "(2::nat) ^ (bit_length N - 1) = 2 ^ (s - 1) * 2 ^ 53"
    unfolding bs by (rule power_add)
  with lo have "(2::nat) ^ (s - 1) * 2 ^ 53 \<le> N"
    by simp
  with Nlt have "(2::nat) ^ (s - 1) * 2 ^ 53 < n * 2 ^ 53" by linarith
  then have small: "(2::nat) ^ (s - 1) < n" by simp
  have mn: "N + n \<le> n * 2 ^ 53"
  proof -
    have "m + 1 \<le> 2 ^ 53" using m by simp
    then have "(m + 1) * n \<le> 2 ^ 53 * n" by (rule mult_le_mono1)
    then show ?thesis by (simp add: N_def algebra_simps)
  qed
  have down: "q * 2 ^ s < n * 2 ^ 53"
    using split Nlt by linarith
  have up: "(q + 1) * 2 ^ s < n * 2 ^ 53" if "2 ^ (s - 1) \<le> r"
  proof -
    have "(q + 1) * 2 ^ s = q * 2 ^ s + 2 * 2 ^ (s - 1)"
      using half by (simp add: algebra_simps)
    also have "\<dots> \<le> q * 2 ^ s + r + 2 ^ (s - 1)" using that by linarith
    also have "\<dots> = N + 2 ^ (s - 1)" using split by simp
    also have "\<dots> < N + n" using small by simp
    finally show ?thesis using mn by linarith
  qed
  have "round53 N = (if 2 ^ (s - 1) < r \<or> (r = 2 ^ (s - 1) \<and> odd q) then q + 1 else q) * 2 ^ s"
    using N by (simp add: round53_def Let_def s_def q_def r_def)
  with up down show ?thesis
    unfolding N_def [symmetric] by (auto split: if_splits)
qed

lemma randomIndex_less: "0 < n \<Longrightarrow> randomIndex r n < n"
proof -
  assume n: "0 < n"
  have "unat (fst r) < 2 ^ 53" using unsigned_less [of "fst r"] by simp
  from round53_less [OF this n] have "round53 (unat (fst r) * n) div 2 ^ 53 < n"
    by (simp add: less_mult_imp_div_less)
  moreover have "round53 (unat (fst r) * n) div 2 ^ (53 + snd r)
      \<le> round53 (unat (fst r) * n) div 2 ^ 53"
    by (simp add: power_add div_mult2_eq [symmetric] div_le_mono2)
  ultimately show ?thesis
    unfolding randomIndex_def by linarith
qed

lemma randomIndex_zero: "randomIndex (0, p) n = 0"
  by (simp add: randomIndex_def round53_def)

lemma matchingGlyphs_iff:
  "v \<in> set (matchingGlyphs fs c) \<longleftrightarrow>
     (\<exists>p \<in> set (globalGlyphs fs). doc_char (snd p) = JString c \<and> doc_imageData (snd p) = v)"
  by (auto simp: matchingGlyphs_def)

lemma matchingGlyphs_empty:
  "matchingGlyphs fs c = [] \<longleftrightarrow> (\<forall>p \<in> set (globalGlyphs fs). doc_char (snd p) \<noteq> JString c)"
  by (auto simp: matchingGlyphs_def filter_empty_conv)

lemma truthy_string: "isString v \<Longrightarrow> stringOf v \<noteq> [] \<Longrightarrow> truthy v"
  by (cases v) simp_all

lemma getRandomGlobalGlyph_found:
  assumes "\<not> getDocs_error e i c" and "matchingGlyphs fs c \<noteq> []"
  shows "\<exists>v \<in> set (matchingGlyphs fs c). getRandomGlobalGlyph e (Some fs) i c = Some v"
  using assms randomIndex_less [of "length (matchingGlyphs fs c)" "random e i"]
  by (auto simp: getRandomGlobalGlyph_def Let_def)

lemma getRandomGlobalGlyph_Some:
  "getRandomGlobalGlyph e dbo i c = Some v \<Longrightarrow>
   \<exists>fs. dbo = Some fs \<and> \<not> getDocs_error e i c \<and> v \<in> set (matchingGlyphs fs c)"
  using randomIndex_less [of "length (matchingGlyphs (the dbo) c)" "random e i"]
  by (auto simp: getRandomGlobalGlyph_def Let_def split: option.splits if_splits)

lemmas lookup_defs = getRandomGlobalGlyph_def matchingGlyphs_def randomIndex_zero setProp_def
  objectPrototypeNames_def validChars_def

lemma globalLookups_notin:
  "c \<notin> set cs \<Longrightarrow> props (snd (globalLookups e dbo i cs (t, obj))) c = props obj c"
  by (induction cs arbitrary: i t obj) (auto simp: setProp_def split: option.splits)

lemma globalLookups_none:
  assumes "\<forall>j v. getRandomGlobalGlyph e dbo j c = Some v \<longrightarrow> \<not> truthy v"
  shows "props (snd (globalLookups e dbo i cs (t, obj))) c = props obj c"
proof (induction cs arbitrary: i t obj)
  case Nil
  show ?case by simp
next
  case (Cons a cs)
  from assms have "\<forall>v. getRandomGlobalGlyph e dbo i c = Some v \<longrightarrow> \<not> truthy v"
    by blast
  then show ?case
    by (auto simp: Cons.IH setProp_def split: option.splits)
qed

lemma globalLookups_step:
  "globalLookups e dbo i (a # cs) (t, obj) =
     globalLookups e dbo (Suc i) cs
       (case getRandomGlobalGlyph e dbo i a of
          None \<Rightarrow> (t, obj)
        | Some v \<Rightarrow>
            if truthy v
            then (t \<or> \<not> isString v, setProp obj a \<lparr>imageData = v, source = SourceGlobal\<rparr>)
            else (t, obj))"
  by simp

lemma globalLookups_cases:
  "props (snd (globalLookups e dbo i cs (t, obj))) c = props obj c \<or>
   (\<exists>j v. c \<in> set cs \<and> c \<noteq> ''__proto__'' \<and> truthy v \<and> getRandomGlobalGlyph e dbo j c = Some v \<and>
      props (snd (globalLookups e dbo i cs (t, obj))) c = Some \<lparr>imageData = v, source = SourceGlobal\<rparr>)"
proof (induction cs arbitrary: i t obj)
  case Nil
  show ?case by simp
next
  case (Cons a cs)
  obtain t' obj' where acc': "(case getRandomGlobalGlyph e dbo i a of
          None \<Rightarrow> (t, obj)
        | Some v \<Rightarrow>
            if truthy v
            then (t \<or> \<not> isString v, setProp obj a \<lparr>imageData = v, source = SourceGlobal\<rparr>)
            else (t, obj)) = (t', obj')"
    by (meson surj_pair)
  have step: "globalLookups e dbo i (a # cs) (t, obj) = globalLookups e dbo (Suc i) cs (t', obj')"
    unfolding globalLookups_step acc' ..
  have here: "props obj' c = props obj c \<or>
     (\<exists>v. a = c \<and> c \<noteq> ''__proto__'' \<and> truthy v \<and> getRandomGlobalGlyph e dbo i c = Some v \<and>
        props obj' c = Some \<lparr>imageData = v, source = SourceGlobal\<rparr>)"
    using acc' by (auto simp: setProp_def split: option.splits if_splits)
  from Cons.IH [of "Suc i" t' obj'] here show ?case
    unfolding step by auto
qed

lemma globalLookups_found:
  assumes "c \<in> set cs" and "c \<noteq> ''__proto__''"
    and "\<forall>j. \<exists>v. truthy v \<and> getRandomGlobalGlyph e dbo j c = Some v"
  shows "\<exists>j v. truthy v \<and> getRandomGlobalGlyph e dbo j c = Some v \<and>
      props (snd (globalLookups e dbo i cs (t, obj))) c = Some \<lparr>imageData = v, source = SourceGlobal\<rparr>"
  using assms(1)
proof (induction cs arbitrary: i t obj)
  case Nil
  then show ?case by simp
next
  case (Cons a cs)
  obtain t' obj' where acc': "(case getRandomGlobalGlyph e dbo i a of
          None \<Rightarrow> (t, obj)
        | Some v \<Rightarrow>
            if truthy v
            then (t \<or> \<not> isString v, setProp obj a \<lparr>imageData = v, source = SourceGlobal\<rparr>)
            else (t, obj)) = (t', obj')"
    by (meson surj_pair)
  have step: "globalLookups e dbo i (a # cs) (t, obj) = globalLookups e dbo (Suc i) cs (t', obj')"
    unfolding globalLookups_step acc' ..
  show ?case
  proof (cases "c \<in> set cs")
    case True
    from Cons.IH [OF True, of "Suc i" t' obj'] show ?thesis
      unfolding step .
  next
    case False
    with Cons.prems have ac: "a = c" by simp
    from assms(3) obtain v where v: "truthy v" "getRandomGlobalGlyph e dbo i c = Some v"
      by blast
    then have "props obj' c = Some \<lparr>imageData = v, source = SourceGlobal\<rparr>"
      using acc' assms(2) by (auto simp: ac setProp_def)
    with False v show ?thesis
      unfolding step by (auto simp: globalLookups_notin)
  qed
qed

lemma globalLookups_thrown:
  "fst (globalLookups e dbo i cs (t, obj)) \<longleftrightarrow>
     t \<or> (\<exists>k < length cs. \<exists>v. getRandomGlobalGlyph e dbo (i + k) (cs ! k) = Some v
                \<and> truthy v \<and> \<not> isString v)"
proof (induction cs arbitrary: i t obj)
  case Nil
  show ?case by simp
next
  case (Cons a cs)
  obtain t' obj' where acc': "(case getRandomGlobalGlyph e dbo i a of
          None \<Rightarrow> (t, obj)
        | Some v \<Rightarrow>
            if truthy v
            then (t \<or> \<not> isString v, setProp obj a \<lparr>imageData = v, source = SourceGlobal\<rparr>)
            else (t, obj)) = (t', obj')"
    by (meson surj_pair)
  have step: "globalLookups e dbo i (a # cs) (t, obj) = globalLookups e dbo (Suc i) cs (t', obj')"
    unfolding globalLookups_step acc' ..
  have here: "t' \<longleftrightarrow> t \<or> (\<exists>v. getRandomGlobalGlyph e dbo i a = Some v \<and> truthy v \<and> \<not> isString v)"
    using acc' by (auto split: option.splits if_splits)
  have pos: "(\<exists>k < length (a # cs). P k) \<longleftrightarrow> P 0 \<or> (\<exists>k < length cs. P (Suc k))" for P
    by (auto simp: less_Suc_eq_0_disj)
  show ?case
    unfolding step Cons.IH here pos by auto
qed

lemma globalLookups_thrown_char:
  assumes "fst (globalLookups e dbo i cs (False, obj))"
  shows "\<exists>c \<in> set cs. \<exists>j v. getRandomGlobalGlyph e dbo j c = Some v \<and> truthy v \<and> \<not> isString v"
  using assms unfolding globalLookups_thrown by (auto intro: nth_mem)

subsection \<open>Resolution\<close>

lemma validChars_iff: "c \<in> set (validChars req) \<longleftrightarrow> JString c \<in> set req \<and> c \<noteq> []"
proof
  assume "c \<in> set (validChars req)"
  then obtain v where v: "v \<in> set req" "isString v" "stringOf v \<noteq> []" "c = stringOf v"
    by (auto simp: validChars_def)
  from v(2,4) have "v = JString c" by (cases v) simp_all
  with v(1,3) show "JString c \<in> set req \<and> c \<noteq> []"
    by simp
next
  assume "JString c \<in> set req \<and> c \<noteq> []"
  then show "c \<in> set (validChars req)"
    by (force simp: validChars_def)
qed

lemma loadAll_unfold:
  assumes "loadLetteringsForInteraction e st = (Inr (own, cm), st')"
  shows "loadAllLetteringsForInteraction e (JArray req) st =
     (if fst (globalLookups e (db st) 0
                (filter (\<lambda>c. props own c = None \<and> c \<notin> set objectPrototypeNames) (validChars req))
                (False, \<lparr>props = props own, proto = None\<rparr>))
      then (Inl TypeError, st')
      else (Inr (snd (globalLookups e (db st) 0
                (filter (\<lambda>c. props own c = None \<and> c \<notin> set objectPrototypeNames) (validChars req))
                (False, \<lparr>props = props own, proto = None\<rparr>))), st'))"
proof -
  have np: "props own ''__proto__'' = None"
    using loadLetteringsForInteraction_props [OF assms] by simp
  have obj: "objectFrom (props own) = \<lparr>props = props own, proto = None\<rparr>"
    by (rule objectFrom_own [of "props own", OF np])
  have flt: "(\<lambda>c. \<not> getTruthy \<lparr>props = props own, proto = None\<rparr> c)
           = (\<lambda>c. props own c = None \<and> c \<notin> set objectPrototypeNames)"
    by (rule ext) (simp add: getTruthy_plain)
  show ?thesis
    using assms loadLetteringsForInteraction_db [OF assms]
    by (simp add: loadAllLetteringsForInteraction_def obj flt split: prod.splits bool.splits)
qed

lemma lookup_unresolved:
  assumes "\<forall>fs. dbo = Some fs \<longrightarrow>
             (\<forall>p \<in> set (globalGlyphs fs). doc_char (snd p) \<noteq> JString c) \<or> (\<forall>i. getDocs_error e i c)"
  shows "getRandomGlobalGlyph e dbo j c = None"
  using assms
  by (auto simp: getRandomGlobalGlyph_def Let_def matchingGlyphs_empty [symmetric] split: option.splits)

lemma lookup_resolved:
  assumes "(gid, g) \<in> set (globalGlyphs fs)" and "doc_char g = JString c"
    and "\<forall>p \<in> set (globalGlyphs fs). doc_char (snd p) = JString c \<longrightarrow>
           isString (doc_imageData (snd p)) \<and> stringOf (doc_imageData (snd p)) \<noteq> []"
    and "\<not> getDocs_error e j c"
  shows "\<exists>p \<in> set (globalGlyphs fs). doc_char (snd p) = JString c
           \<and> isString (doc_imageData (snd p)) \<and> truthy (doc_imageData (snd p))
           \<and> getRandomGlobalGlyph e (Some fs) j c = Some (doc_imageData (snd p))"
proof -
  have "matchingGlyphs fs c \<noteq> []"
    using assms(1,2) by (force simp: matchingGlyphs_empty)
  from getRandomGlobalGlyph_found [OF assms(4) this]
  obtain v where "v \<in> set (matchingGlyphs fs c)" and v: "getRandomGlobalGlyph e (Some fs) j c = Some v"
    by blast
  then obtain p where p: "p \<in> set (globalGlyphs fs)" "doc_char (snd p) = JString c"
      "doc_imageData (snd p) = v"
    by (auto simp: matchingGlyphs_iff)
  with assms(3) have "isString v \<and> stringOf v \<noteq> []" by blast
  with p v show ?thesis
    by (auto intro: truthy_string)
qed

lemma ex_local_saved_own:
  "loadLetteringsForInteraction ex_env ex_local_saved =
     (Inr (\<lparr>props = Map.empty(''a'' \<mapsto> \<lparr>imageData = JString ex_img1, source = SourceUser\<rparr>),
            proto = None\<rparr>,
           FMap (Map.empty(''a'' \<mapsto> ''local_glyph_user_1_x_a''))),
      ex_local_saved)"
  by (simp add: loadLetteringsForInteraction_def ex_local_saved_def ex_img1_def eval_defs
      emptyObject_def setProp_def setValue_def)

lemma ex_remote_own:
  "loadLetteringsForInteraction ex_env ex_remote = (Inr (emptyObject, FMap Map.empty), ex_remote)"
  by (simp add: loadLetteringsForInteraction_def ex_remote_def ex_pool_def ex_env_def eval_defs
      objectFrom_def emptyObject_def)

lemma ex_remote_malformed_own:
  "loadLetteringsForInteraction ex_env ex_remote_malformed
     = (Inr (emptyObject, FMap Map.empty), ex_remote_malformed)"
  by (simp add: loadLetteringsForInteraction_def ex_remote_malformed_def ex_env_def eval_defs
      objectFrom_def emptyObject_def)

text \<open>
  C9. When \<^verbatim>\<open>requiredChars\<close> is not an array, \<^verbatim>\<open>loadAllLetteringsForInteraction\<close>
  returns the empty mapping without throwing, and without touching the state.
\<close>

theorem not_array_resolves_nothing:
  assumes "\<not> isArray requiredChars"
  shows "loadAllLetteringsForInteraction e requiredChars st = (Inr emptyObject, st)"
  using assms by (cases requiredChars) (simp_all add: loadAllLetteringsForInteraction_def)

text \<open>\<^verbatim>\<open>null\<close> and a string in place of the array.\<close>

theorem not_array_resolves_nothing_witness:
  "\<not> isArray JNull
   \<and> loadAllLetteringsForInteraction ex_env JNull ex_remote = (Inr emptyObject, ex_remote)
   \<and> \<not> isArray (JString ''abc'')
   \<and> loadAllLetteringsForInteraction ex_env (JString ''abc'') ex_remote = (Inr emptyObject, ex_remote)"
  using not_array_resolves_nothing [of JNull ex_env ex_remote]
    not_array_resolves_nothing [of "JString ''abc''" ex_env ex_remote]
  by simp

text \<open>
  C6, as the code has it. When the resolution returns, the result holds every entry of
  the user's own letterings, with source \<^verbatim>\<open>user\<close>, whether or not its character is
  required; any other entry has source \<^verbatim>\<open>global\<close> and belongs to a non-empty string of
  the required characters. The resolution throws only when the lookup of a required
  character has returned an image that is truthy and not a string, on which the
  \<^verbatim>\<open>substring\<close> of the log line fails.
\<close>

theorem resolve_entries:
  assumes "loadLetteringsForInteraction e st = (Inr (own, cm), st')"
  shows "\<exists>r. loadAllLetteringsForInteraction e (JArray req) st = (r, st')
     \<and> (r = Inl TypeError \<longrightarrow>
          (\<exists>c i v. JString c \<in> set req \<and> getRandomGlobalGlyph e (db st) i c = Some v
                  \<and> truthy v \<and> \<not> isString v))
     \<and> (r \<noteq> Inl TypeError \<longrightarrow>
          (\<exists>obj. r = Inr obj
             \<and> (\<forall>c d. props own c = Some d \<longrightarrow> props obj c = Some d \<and> source d = SourceUser)
             \<and> (\<forall>c d. props obj c = Some d \<and> props own c = None \<longrightarrow>
                    JString c \<in> set req \<and> c \<noteq> [] \<and> source d = SourceGlobal)))"
proof -
  let ?missing = "filter (\<lambda>c. props own c = None \<and> c \<notin> set objectPrototypeNames) (validChars req)"
  let ?R = "globalLookups e (db st) 0 ?missing (False, \<lparr>props = props own, proto = None\<rparr>)"
  note all = loadAll_unfold [OF assms, of req]
  have thrown: "\<exists>c i v. JString c \<in> set req \<and> getRandomGlobalGlyph e (db st) i c = Some v
                  \<and> truthy v \<and> \<not> isString v" if "fst ?R"
    using globalLookups_thrown_char [OF that] by (auto simp: validChars_iff)
  have kept: "props (snd ?R) c = Some d \<and> source d = SourceUser" if "props own c = Some d" for c d
    using that loadLetteringsForInteraction_props [OF assms]
    by (simp add: globalLookups_notin)
  have added: "JString c \<in> set req \<and> c \<noteq> [] \<and> source d = SourceGlobal"
    if "props (snd ?R) c = Some d" "props own c = None" for c d
    using globalLookups_cases [of e "db st" 0 ?missing False "\<lparr>props = props own, proto = None\<rparr>" c] that
    by (auto simp: validChars_iff)
  show ?thesis
  proof (cases "fst ?R")
    case True
    with all thrown show ?thesis by auto
  next
    case False
    with all kept added show ?thesis by auto
  qed
qed

text \<open>
  C6 as stated fails: \<^verbatim>\<open>user_1_x\<close> has saved \<^verbatim>\<open>a\<close> and asks for \<^verbatim>\<open>b\<close> only; the result
  holds \<^verbatim>\<open>a\<close>.
\<close>

theorem resolve_only_required_counterexample:
  "JString ''a'' \<notin> set [JString ''b'']
   \<and> (\<exists>obj. loadAllLetteringsForInteraction ex_env (JArray [JString ''b'']) ex_local_saved
              = (Inr obj, ex_local_saved)
          \<and> props obj ''a'' = Some \<lparr>imageData = JString ex_img1, source = SourceUser\<rparr>)"
  unfolding loadAll_unfold [OF ex_local_saved_own]
  by (simp add: lookup_defs ex_local_saved_def)

text \<open>
  The own entry for \<^verbatim>\<open>a\<close> when nothing is required; the global entry for the required
  \<^verbatim>\<open>A\<close>; and the \<^verbatim>\<open>TypeError\<close> when the image found for \<^verbatim>\<open>A\<close> is the number 42.
\<close>

theorem resolve_entries_witness:
  "loadLetteringsForInteraction ex_env ex_local_saved =
     (Inr (\<lparr>props = Map.empty(''a'' \<mapsto> \<lparr>imageData = JString ex_img1, source = SourceUser\<rparr>),
            proto = None\<rparr>,
           FMap (Map.empty(''a'' \<mapsto> ''local_glyph_user_1_x_a''))),
      ex_local_saved)
   \<and> (\<exists>obj. loadAllLetteringsForInteraction ex_env (JArray []) ex_local_saved
              = (Inr obj, ex_local_saved)
          \<and> props obj ''a'' = Some \<lparr>imageData = JString ex_img1, source = SourceUser\<rparr>)
   \<and> loadLetteringsForInteraction ex_env ex_remote = (Inr (emptyObject, FMap Map.empty), ex_remote)
   \<and> (\<exists>obj. loadAllLetteringsForInteraction ex_env (JArray [JString ''A'']) ex_remote
              = (Inr obj, ex_remote)
          \<and> props obj ''A'' = Some \<lparr>imageData = JString ex_img1, source = SourceGlobal\<rparr>)
   \<and> JString ''A'' \<in> set [JString ''A'']
   \<and> loadAllLetteringsForInteraction ex_env (JArray [JString ''A'']) ex_remote_malformed
       = (Inl TypeError, ex_remote_malformed)
   \<and> getRandomGlobalGlyph ex_env (db ex_remote_malformed) 0 ''A'' = Some (JNumber 42)
   \<and> truthy (JNumber 42) \<and> \<not> isString (JNumber 42)"
proof -
  let ?own = "\<lparr>props = Map.empty(''a'' \<mapsto> \<lparr>imageData = JString ex_img1, source = SourceUser\<rparr>),
               proto = None\<rparr>"
  from resolve_entries [OF ex_local_saved_own, of "[]"] obtain obj where
    m: "loadAllLetteringsForInteraction ex_env (JArray []) ex_local_saved = (Inr obj, ex_local_saved)"
    and kept: "\<forall>c d. props ?own c = Some d \<longrightarrow> props obj c = Some d \<and> source d = SourceUser"
    by auto
  have a: "props obj ''a'' = Some \<lparr>imageData = JString ex_img1, source = SourceUser\<rparr>"
    using kept [rule_format, of "''a''" "\<lparr>imageData = JString ex_img1, source = SourceUser\<rparr>"] by simp
  have look: "getRandomGlobalGlyph ex_env (db ex_remote) i ''A'' = Some (JString ex_img1)" for i
    by (simp add: lookup_defs ex_env_def ex_img1_def ex_remote_def ex_pool_def)
  from resolve_entries [OF ex_remote_own, of "[JString ''A'']"] obtain r where
    r: "loadAllLetteringsForInteraction ex_env (JArray [JString ''A'']) ex_remote = (r, ex_remote)"
    and thrown: "r = Inl TypeError \<longrightarrow>
          (\<exists>c i v. JString c \<in> set [JString ''A''] \<and> getRandomGlobalGlyph ex_env (db ex_remote) i c = Some v
                  \<and> truthy v \<and> \<not> isString v)"
    and ok: "r \<noteq> Inl TypeError \<longrightarrow>
          (\<exists>obj. r = Inr obj
             \<and> (\<forall>c d. props obj c = Some d \<and> props emptyObject c = None \<longrightarrow>
                    JString c \<in> set [JString ''A''] \<and> c \<noteq> [] \<and> source d = SourceGlobal))"
    by blast
  have nt: "r \<noteq> Inl TypeError"
  proof
    assume "r = Inl TypeError"
    with thrown obtain i v where "getRandomGlobalGlyph ex_env (db ex_remote) i ''A'' = Some v"
      and "\<not> isString v" by auto
    thus False by (auto simp: look)
  qed
  with ok obtain obj' where r': "r = Inr obj'" by blast
  have A: "props obj' ''A'' = Some \<lparr>imageData = JString ex_img1, source = SourceGlobal\<rparr>"
    using r unfolding r' loadAll_unfold [OF ex_remote_own]
    by (auto simp: lookup_defs emptyObject_def ex_env_def ex_img1_def ex_remote_def ex_pool_def
        split: if_splits)
  have bad: "getRandomGlobalGlyph ex_env (db ex_remote_malformed) 0 ''A'' = Some (JNumber 42)"
    by (simp add: lookup_defs ex_env_def ex_remote_malformed_def)
  have T: "loadAllLetteringsForInteraction ex_env (JArray [JString ''A'']) ex_remote_malformed
       = (Inl TypeError, ex_remote_malformed)"
    unfolding loadAll_unfold [OF ex_remote_malformed_own]
    by (simp add: lookup_defs emptyObject_def ex_env_def ex_remote_malformed_def)
  from a A m r r' bad T ex_local_saved_own ex_remote_own show ?thesis
    by simp
qed

lemma resolve_single:
  assumes "loadLetteringsForInteraction e st = (Inr (own, cm), st')"
    and "props own c = None"
    and "c \<noteq> []"
    and "db st = Some fs"
    and "(gid, g) \<in> set (globalGlyphs fs)" and "doc_char g = JString c"
    and "\<forall>p \<in> set (globalGlyphs fs). doc_char (snd p) = JString c \<longrightarrow>
           isString (doc_imageData (snd p)) \<and> stringOf (doc_imageData (snd p)) \<noteq> []"
    and "\<forall>i. \<not> getDocs_error e i c"
  shows "\<exists>obj. loadAllLetteringsForInteraction e (JArray [JString c]) st = (Inr obj, st')
         \<and> (if c \<in> set objectPrototypeNames then props obj c = None
            else (\<exists>p \<in> set (globalGlyphs fs). doc_char (snd p) = JString c
                    \<and> props obj c = Some \<lparr>imageData = doc_imageData (snd p), source = SourceGlobal\<rparr>))"
proof -
  let ?own = "\<lparr>props = props own, proto = None\<rparr>"
  have vc: "validChars [JString c] = [c]"
    using assms(3) by (simp add: validChars_def)
  note all = loadAll_unfold [OF assms(1), of "[JString c]", unfolded vc]
  show ?thesis
  proof (cases "c \<in> set objectPrototypeNames")
    case True
    with all assms(2) show ?thesis by simp
  next
    case False
    from lookup_resolved [OF assms(5-7)] assms(8)
    obtain p where p: "p \<in> set (globalGlyphs fs)" "doc_char (snd p) = JString c"
      "isString (doc_imageData (snd p))" "truthy (doc_imageData (snd p))"
      "getRandomGlobalGlyph e (Some fs) 0 c = Some (doc_imageData (snd p))"
      by blast
    have np: "c \<noteq> ''__proto__''"
      using False by (auto simp: objectPrototypeNames_def)
    from p np have "globalLookups e (Some fs) 0 [c] (False, ?own)
        = (False, ?own\<lparr>props := (props own)(c \<mapsto> \<lparr>imageData = doc_imageData (snd p), source = SourceGlobal\<rparr>)\<rparr>)"
      by (simp add: setProp_def)
    with all False assms(2,4) p(1,2) show ?thesis
      by auto
  qed
qed



text \<open>
  C5. Once the identity is at hand: a character \<open>c\<close> without an own entry, for which the
  pool has no document or every query fails (or Firebase is not configured), resolved
  alone, gives a mapping without an entry for \<open>c\<close>, and no exception. For any required
  characters, the resolution throws only when some lookup has found an image that is
  truthy and not a string, never because a lookup found nothing or failed; and when it
  returns, every such \<open>c\<close> has no entry, while a required character with a well-formed
  glyph in the pool, other than the names of \<^verbatim>\<open>Object.prototype\<close>, has its global entry.
  An entry is an own property of the returned object.
\<close>

theorem graceful_absence:
  assumes "getUserId e (localStorage st) = Inr (u, ls)"
  shows "\<exists>own cm.
      loadLetteringsForInteraction e st = (Inr (own, cm), st\<lparr>localStorage := ls\<rparr>)
    \<and> (\<forall>c. props own c = None
           \<and> (\<forall>fs. db st = Some fs \<longrightarrow>
                 (\<forall>p \<in> set (globalGlyphs fs). doc_char (snd p) \<noteq> JString c)
                 \<or> (\<forall>i. getDocs_error e i c))
         \<longrightarrow> (\<exists>obj. loadAllLetteringsForInteraction e (JArray [JString c]) st
                       = (Inr obj, st\<lparr>localStorage := ls\<rparr>)
                  \<and> props obj c = None))
    \<and> (\<forall>req. \<exists>r.
          loadAllLetteringsForInteraction e (JArray req) st = (r, st\<lparr>localStorage := ls\<rparr>)
        \<and> (r = Inl TypeError \<longrightarrow>
             (\<exists>c i v. JString c \<in> set req \<and> getRandomGlobalGlyph e (db st) i c = Some v
                     \<and> truthy v \<and> \<not> isString v))
        \<and> (r \<noteq> Inl TypeError \<longrightarrow>
             (\<exists>obj. r = Inr obj
                \<and> (\<forall>c. props own c = None
                       \<and> (\<forall>fs. db st = Some fs \<longrightarrow>
                             (\<forall>p \<in> set (globalGlyphs fs). doc_char (snd p) \<noteq> JString c)
                             \<or> (\<forall>i. getDocs_error e i c))
                     \<longrightarrow> props obj c = None)
                \<and> (\<forall>c fs gid g. JString c \<in> set req \<and> c \<noteq> [] \<and> props own c = None
                       \<and> c \<notin> set objectPrototypeNames \<and> db st = Some fs
                       \<and> (gid, g) \<in> set (globalGlyphs fs) \<and> doc_char g = JString c
                       \<and> (\<forall>p \<in> set (globalGlyphs fs). doc_char (snd p) = JString c \<longrightarrow>
                             isString (doc_imageData (snd p)) \<and> stringOf (doc_imageData (snd p)) \<noteq> [])
                       \<and> (\<forall>i. \<not> getDocs_error e i c)
                     \<longrightarrow> (\<exists>p \<in> set (globalGlyphs fs). doc_char (snd p) = JString c
                            \<and> props obj c = Some \<lparr>imageData = doc_imageData (snd p),
                                                   source = SourceGlobal\<rparr>)))))"
proof -
  from loadLetteringsForInteraction_total [OF assms] obtain own cm
    where load: "loadLetteringsForInteraction e st = (Inr (own, cm), st\<lparr>localStorage := ls\<rparr>)"
    by blast
  let ?own = "\<lparr>props = props own, proto = None\<rparr>"
  let ?nothing = "\<lambda>c. \<forall>fs. db st = Some fs \<longrightarrow>
                 (\<forall>p \<in> set (globalGlyphs fs). doc_char (snd p) \<noteq> JString c)
                 \<or> (\<forall>i. getDocs_error e i c)"
  have none: "getRandomGlobalGlyph e (db st) j c = None" if "?nothing c" for c j
    using that by (intro lookup_unresolved) blast
  have keep: "props (snd (globalLookups e (db st) i cs (t, ?own))) c = None"
    if "props own c = None" "?nothing c" for c i cs t
    using that(1) none [OF that(2)] by (simp add: globalLookups_none)
  have quiet: "\<not> fst (globalLookups e (db st) 0 (filter P [c]) (False, obj))"
    if "?nothing c" for c P obj
    using none [OF that] by (simp add: globalLookups_thrown)
  have single: "\<exists>obj. loadAllLetteringsForInteraction e (JArray [JString c]) st
                       = (Inr obj, st\<lparr>localStorage := ls\<rparr>) \<and> props obj c = None"
    if "props own c = None" "?nothing c" for c
  proof (cases "c = []")
    case True
    with that(1) show ?thesis
      by (simp add: loadAll_unfold [OF load] validChars_def)
  next
    case False
    then have vc: "validChars [JString c] = [c]" by (simp add: validChars_def)
    let ?R = "globalLookups e (db st) 0
                (filter (\<lambda>c. props own c = None \<and> c \<notin> set objectPrototypeNames) [c]) (False, ?own)"
    have "\<not> fst ?R" by (rule quiet [OF that(2)])
    then have "loadAllLetteringsForInteraction e (JArray [JString c]) st
                 = (Inr (snd ?R), st\<lparr>localStorage := ls\<rparr>)"
      unfolding loadAll_unfold [OF load] vc by (rule if_not_P)
    moreover have "props (snd ?R) c = None" by (rule keep [OF that])
    ultimately show ?thesis by blast
  qed
  have general: "\<exists>r.
          loadAllLetteringsForInteraction e (JArray req) st = (r, st\<lparr>localStorage := ls\<rparr>)
        \<and> (r = Inl TypeError \<longrightarrow>
             (\<exists>c i v. JString c \<in> set req \<and> getRandomGlobalGlyph e (db st) i c = Some v
                     \<and> truthy v \<and> \<not> isString v))
        \<and> (r \<noteq> Inl TypeError \<longrightarrow>
             (\<exists>obj. r = Inr obj
                \<and> (\<forall>c. props own c = None \<and> ?nothing c \<longrightarrow> props obj c = None)
                \<and> (\<forall>c fs gid g. JString c \<in> set req \<and> c \<noteq> [] \<and> props own c = None
                       \<and> c \<notin> set objectPrototypeNames \<and> db st = Some fs
                       \<and> (gid, g) \<in> set (globalGlyphs fs) \<and> doc_char g = JString c
                       \<and> (\<forall>p \<in> set (globalGlyphs fs). doc_char (snd p) = JString c \<longrightarrow>
                             isString (doc_imageData (snd p)) \<and> stringOf (doc_imageData (snd p)) \<noteq> [])
                       \<and> (\<forall>i. \<not> getDocs_error e i c)
                     \<longrightarrow> (\<exists>p \<in> set (globalGlyphs fs). doc_char (snd p) = JString c
                            \<and> props obj c = Some \<lparr>imageData = doc_imageData (snd p),
                                                   source = SourceGlobal\<rparr>))))" for req
  proof -
    let ?missing = "filter (\<lambda>c. props own c = None \<and> c \<notin> set objectPrototypeNames) (validChars req)"
    let ?R = "globalLookups e (db st) 0 ?missing (False, ?own)"
    note all = loadAll_unfold [OF load, of req]
    have thrown: "\<exists>c i v. JString c \<in> set req \<and> getRandomGlobalGlyph e (db st) i c = Some v
                  \<and> truthy v \<and> \<not> isString v" if "fst ?R"
      using globalLookups_thrown_char [OF that] by (auto simp: validChars_iff)
    have others: "\<exists>p \<in> set (globalGlyphs fs). doc_char (snd p) = JString c
                    \<and> props (snd ?R) c = Some \<lparr>imageData = doc_imageData (snd p), source = SourceGlobal\<rparr>"
      if h: "JString c \<in> set req" "c \<noteq> []" "props own c = None" "c \<notin> set objectPrototypeNames"
        "db st = Some fs" "(gid, g) \<in> set (globalGlyphs fs)" "doc_char g = JString c"
        "\<forall>p \<in> set (globalGlyphs fs). doc_char (snd p) = JString c \<longrightarrow>
            isString (doc_imageData (snd p)) \<and> stringOf (doc_imageData (snd p)) \<noteq> []"
        "\<forall>i. \<not> getDocs_error e i c" for c fs gid g
    proof -
      have mem: "c \<in> set ?missing" using h(1-4) by (simp add: validChars_iff)
      have np: "c \<noteq> ''__proto__''" using h(4) by (auto simp: objectPrototypeNames_def)
      have "\<forall>j. \<exists>v. truthy v \<and> getRandomGlobalGlyph e (db st) j c = Some v"
        using lookup_resolved [OF h(6-8)] h(5,9) by metis
      from globalLookups_found [OF mem np this, of 0 False ?own]
      obtain j v where v: "getRandomGlobalGlyph e (db st) j c = Some v"
        and r: "props (snd ?R) c = Some \<lparr>imageData = v, source = SourceGlobal\<rparr>"
        by blast
      from v h(5) have "v \<in> set (matchingGlyphs fs c)"
        by (auto dest: getRandomGlobalGlyph_Some)
      with r show ?thesis
        by (auto simp: matchingGlyphs_iff)
    qed
    show ?thesis
    proof (cases "fst ?R")
      case True
      with all thrown show ?thesis by auto
    next
      case False
      have "loadAllLetteringsForInteraction e (JArray req) st = (Inr (snd ?R), st\<lparr>localStorage := ls\<rparr>)"
        using all False by simp
      moreover have "\<forall>c. props own c = None \<and> ?nothing c \<longrightarrow> props (snd ?R) c = None"
        using keep by blast
      moreover note others
      ultimately show ?thesis by blast
    qed
  qed
  from load single general show ?thesis
    by blast
qed

text \<open>
  \<^verbatim>\<open>user_2_y\<close> resolves \<^verbatim>\<open>b\<close> alone, and then \<^verbatim>\<open>A\<close> and \<^verbatim>\<open>b\<close>, the scenario of the
  specification; \<^verbatim>\<open>b\<close> has no entry, \<^verbatim>\<open>A\<close> has the global one.
\<close>

theorem graceful_absence_witness:
  "getUserId ex_env (localStorage ex_remote) = Inr (''user_2_y'', localStorage ex_remote)
   \<and> (\<exists>obj. loadAllLetteringsForInteraction ex_env (JArray [JString ''b'']) ex_remote
              = (Inr obj, ex_remote)
          \<and> props obj ''b'' = None)
   \<and> (\<exists>obj. loadAllLetteringsForInteraction ex_env (JArray [JString ''A'', JString ''b'']) ex_remote
              = (Inr obj, ex_remote)
          \<and> props obj ''b'' = None
          \<and> props obj ''A'' = Some \<lparr>imageData = JString ex_img1, source = SourceGlobal\<rparr>)"
proof -
  let ?req = "[JString ''A'', JString ''b'']"
  have h1: "getUserId ex_env (localStorage ex_remote) = Inr (''user_2_y'', localStorage ex_remote)"
    by (simp add: ex_remote_def eval_defs)
  have st: "ex_remote\<lparr>localStorage := localStorage ex_remote\<rparr> = ex_remote" by simp
  have db: "db ex_remote = Some ex_pool" by (simp add: ex_remote_def)
  have look: "getRandomGlobalGlyph ex_env (db ex_remote) i c = Some v \<Longrightarrow> isString v" for i c v
    by (auto simp: lookup_defs ex_env_def ex_remote_def ex_pool_def split: if_splits)
  from graceful_absence [OF h1] obtain own cm where
    load: "loadLetteringsForInteraction ex_env ex_remote = (Inr (own, cm), ex_remote)"
    and single: "\<forall>c. props own c = None
           \<and> (\<forall>fs. db ex_remote = Some fs \<longrightarrow>
                 (\<forall>p \<in> set (globalGlyphs fs). doc_char (snd p) \<noteq> JString c)
                 \<or> (\<forall>i. getDocs_error ex_env i c))
         \<longrightarrow> (\<exists>obj. loadAllLetteringsForInteraction ex_env (JArray [JString c]) ex_remote
                       = (Inr obj, ex_remote)
                  \<and> props obj c = None)"
    and general: "\<forall>req. \<exists>r.
          loadAllLetteringsForInteraction ex_env (JArray req) ex_remote = (r, ex_remote)
        \<and> (r = Inl TypeError \<longrightarrow>
             (\<exists>c i v. JString c \<in> set req \<and> getRandomGlobalGlyph ex_env (db ex_remote) i c = Some v
                     \<and> truthy v \<and> \<not> isString v))
        \<and> (r \<noteq> Inl TypeError \<longrightarrow>
             (\<exists>obj. r = Inr obj
                \<and> (\<forall>c. props own c = None
                       \<and> (\<forall>fs. db ex_remote = Some fs \<longrightarrow>
                             (\<forall>p \<in> set (globalGlyphs fs). doc_char (snd p) \<noteq> JString c)
                             \<or> (\<forall>i. getDocs_error ex_env i c))
                     \<longrightarrow> props obj c = None)
                \<and> (\<forall>c fs gid g. JString c \<in> set req \<and> c \<noteq> [] \<and> props own c = None
                       \<and> c \<notin> set objectPrototypeNames \<and> db ex_remote = Some fs
                       \<and> (gid, g) \<in> set (globalGlyphs fs) \<and> doc_char g = JString c
                       \<and> (\<forall>p \<in> set (globalGlyphs fs). doc_char (snd p) = JString c \<longrightarrow>
                             isString (doc_imageData (snd p)) \<and> stringOf (doc_imageData (snd p)) \<noteq> [])
                       \<and> (\<forall>i. \<not> getDocs_error ex_env i c)
                     \<longrightarrow> (\<exists>p \<in> set (globalGlyphs fs). doc_char (snd p) = JString c
                            \<and> props obj c = Some \<lparr>imageData = doc_imageData (snd p),
                                                   source = SourceGlobal\<rparr>))))"
    unfolding st by blast
  from load ex_remote_own have own: "own = emptyObject" by simp
  have nob: "props own ''b'' = None
           \<and> (\<forall>fs. db ex_remote = Some fs \<longrightarrow>
                 (\<forall>p \<in> set (globalGlyphs fs). doc_char (snd p) \<noteq> JString ''b'')
                 \<or> (\<forall>i. getDocs_error ex_env i ''b''))"
    by (simp add: own db emptyObject_def ex_pool_def)
  from single [rule_format, OF nob] have one:
    "\<exists>obj. loadAllLetteringsForInteraction ex_env (JArray [JString ''b'']) ex_remote
              = (Inr obj, ex_remote) \<and> props obj ''b'' = None" .
  from general [rule_format, of ?req] obtain r where
    r: "loadAllLetteringsForInteraction ex_env (JArray ?req) ex_remote = (r, ex_remote)"
    and thrown: "r = Inl TypeError \<longrightarrow>
             (\<exists>c i v. JString c \<in> set ?req \<and> getRandomGlobalGlyph ex_env (db ex_remote) i c = Some v
                     \<and> truthy v \<and> \<not> isString v)"
    and ok: "r \<noteq> Inl TypeError \<longrightarrow>
             (\<exists>obj. r = Inr obj
                \<and> (\<forall>c. props own c = None
                       \<and> (\<forall>fs. db ex_remote = Some fs \<longrightarrow>
                             (\<forall>p \<in> set (globalGlyphs fs). doc_char (snd p) \<noteq> JString c)
                             \<or> (\<forall>i. getDocs_error ex_env i c))
                     \<longrightarrow> props obj c = None)
                \<and> (\<forall>c fs gid g. JString c \<in> set ?req \<and> c \<noteq> [] \<and> props own c = None
                       \<and> c \<notin> set objectPrototypeNames \<and> db ex_remote = Some fs
                       \<and> (gid, g) \<in> set (globalGlyphs fs) \<and> doc_char g = JString c
                       \<and> (\<forall>p \<in> set (globalGlyphs fs). doc_char (snd p) = JString c \<longrightarrow>
                             isString (doc_imageData (snd p)) \<and> stringOf (doc_imageData (snd p)) \<noteq> [])
                       \<and> (\<forall>i. \<not> getDocs_error ex_env i c)
                     \<longrightarrow> (\<exists>p \<in> set (globalGlyphs fs). doc_char (snd p) = JString c
                            \<and> props obj c = Some \<lparr>imageData = doc_imageData (snd p),
                                                   source = SourceGlobal\<rparr>)))"
    by blast
  have "r \<noteq> Inl TypeError"
    using thrown look by blast
  with ok obtain obj where obj: "r = Inr obj"
    and absent: "\<forall>c. props own c = None
                       \<and> (\<forall>fs. db ex_remote = Some fs \<longrightarrow>
                             (\<forall>p \<in> set (globalGlyphs fs). doc_char (snd p) \<noteq> JString c)
                             \<or> (\<forall>i. getDocs_error ex_env i c))
                     \<longrightarrow> props obj c = None"
    and others: "\<forall>c fs gid g. JString c \<in> set ?req \<and> c \<noteq> [] \<and> props own c = None
                       \<and> c \<notin> set objectPrototypeNames \<and> db ex_remote = Some fs
                       \<and> (gid, g) \<in> set (globalGlyphs fs) \<and> doc_char g = JString c
                       \<and> (\<forall>p \<in> set (globalGlyphs fs). doc_char (snd p) = JString c \<longrightarrow>
                             isString (doc_imageData (snd p)) \<and> stringOf (doc_imageData (snd p)) \<noteq> [])
                       \<and> (\<forall>i. \<not> getDocs_error ex_env i c)
                     \<longrightarrow> (\<exists>p \<in> set (globalGlyphs fs). doc_char (snd p) = JString c
                            \<and> props obj c = Some \<lparr>imageData = doc_imageData (snd p),
                                                   source = SourceGlobal\<rparr>)"
    by blast
  from absent [rule_format, OF nob] have b: "props obj ''b'' = None" .
  have "JString ''A'' \<in> set ?req \<and> ''A'' \<noteq> [] \<and> props own ''A'' = None
         \<and> ''A'' \<notin> set objectPrototypeNames \<and> db ex_remote = Some ex_pool
         \<and> (''g0'', \<lparr>doc_char = JString ''A'', doc_imageData = JString ex_img1,
               doc_createdAt = 1699999999999, doc_sourceUserId = ''user_1_x''\<rparr>) \<in> set (globalGlyphs ex_pool)
         \<and> doc_char \<lparr>doc_char = JString ''A'', doc_imageData = JString ex_img1,
               doc_createdAt = 1699999999999, doc_sourceUserId = ''user_1_x''\<rparr> = JString ''A''
         \<and> (\<forall>p \<in> set (globalGlyphs ex_pool). doc_char (snd p) = JString ''A'' \<longrightarrow>
                 isString (doc_imageData (snd p)) \<and> stringOf (doc_imageData (snd p)) \<noteq> [])
         \<and> (\<forall>i. \<not> getDocs_error ex_env i ''A'')"
    by (simp add: own db emptyObject_def objectPrototypeNames_def ex_pool_def ex_img1_def ex_env_def)
  from others [rule_format, OF this]
  have A: "props obj ''A'' = Some \<lparr>imageData = JString ex_img1, source = SourceGlobal\<rparr>"
    by (auto simp: ex_pool_def ex_img1_def)
  from h1 one r obj b A show ?thesis by simp
qed

subsection \<open>Saving to Firestore, then loading\<close>

text \<open>
  C2 does not hold of the code. \<^verbatim>\<open>saveLettering\<close> writes the pointer as a top-level field
  called \<^verbatim>\<open>charMap.<char>\<close>, and both loaders read the field called \<^verbatim>\<open>charMap\<close>. For a
  user whose document has no such field (every new user), two successful saves leave the
  user's own letterings empty, whatever the characters and images are.
\<close>

theorem remote_saves_not_loaded:
  assumes "db st = Some fs"
    and "getUserId e1 (localStorage st) = Inr (u, ls)"
    and "(case userGlyphs fs u of None \<Rightarrow> None | Some d \<Rightarrow> d ''charMap'') = None"
    and "saveLettering e1 (JString a) (JString v1) st = (Inr g1, st1)"
    and "saveLettering e2 (JString b) (JString v2) st1 = (Inr g2, st2)"
  shows "loadLetteringsForInteraction e3 st2 = (Inr (emptyObject, FMap Map.empty), st2)
       \<and> loadUserLetterings e3 st2 = (Inr Map.empty, st2)"
proof -
  from saveLettering_remote [OF assms(4) assms(1)] assms(2) obtain fs1 where
    ls1: "localStorage st1 = ls" and db1: "db st1 = Some fs1"
    and cm1: "\<forall>uid. (case userGlyphs fs1 uid of None \<Rightarrow> None | Some d \<Rightarrow> d ''charMap'')
                = (case userGlyphs fs uid of None \<Rightarrow> None | Some d \<Rightarrow> d ''charMap'')"
    by auto
  have id: "getItem ls USER_ID_KEY = Some u \<and> u \<noteq> []"
    using assms(2) by (rule getUserId_persists)
  then have g2: "getUserId e2 (localStorage st1) = Inr (u, ls)"
    by (simp add: ls1 getUserId_stored)
  from saveLettering_remote [OF assms(5) db1] g2 obtain fs2 where
    ls2: "localStorage st2 = ls" and db2: "db st2 = Some fs2"
    and cm2: "\<forall>uid. (case userGlyphs fs2 uid of None \<Rightarrow> None | Some d \<Rightarrow> d ''charMap'')
                = (case userGlyphs fs1 uid of None \<Rightarrow> None | Some d \<Rightarrow> d ''charMap'')"
    by auto
  have "(case userGlyphs fs2 u of None \<Rightarrow> None | Some d \<Rightarrow> d ''charMap'') = None"
    using cm1 cm2 assms(3) by simp
  with db2 id show ?thesis
    by (intro load_without_charMap) (simp_all add: ls2)
qed

lemma ex_remote_one_eq:
  "saveLettering ex_env (JString ''a'') (JString ex_img1) ex_remote_new =
     (Inr ''g1'',
      \<lparr>localStorage = \<lparr>items = [(''absurde_user_id'', ''user_1_x'')], quota = 5000000\<rparr>,
       db = Some \<lparr>globalGlyphs =
                    [(''g1'', \<lparr>doc_char = JString ''a'',
                               doc_imageData = JString ''data:image/png;base64,AAAA'',
                               doc_createdAt = 1700000000001, doc_sourceUserId = ''user_1_x''\<rparr>)],
                  userGlyphs = Map.empty(''user_1_x'' \<mapsto> Map.empty(''charMap.a'' \<mapsto> FString ''g1''))\<rparr>\<rparr>)"
  by (simp add: save_defs eval_defs ex_remote_new_def ex_env_def ex_img1_def)

lemma ex_remote_two_eq:
  "saveLettering ex_env2 (JString ''b'') (JString ex_img2) ex_remote_one =
     (Inr ''g2'',
      \<lparr>localStorage = \<lparr>items = [(''absurde_user_id'', ''user_1_x'')], quota = 5000000\<rparr>,
       db = Some \<lparr>globalGlyphs =
                    [(''g1'', \<lparr>doc_char = JString ''a'',
                               doc_imageData = JString ''data:image/png;base64,AAAA'',
                               doc_createdAt = 1700000000001, doc_sourceUserId = ''user_1_x''\<rparr>),
                     (''g2'', \<lparr>doc_char = JString ''b'',
                               doc_imageData = JString ''data:image/png;base64,BBBB'',
                               doc_createdAt = 1700000001000, doc_sourceUserId = ''user_1_x''\<rparr>)],
                  userGlyphs = Map.empty(''user_1_x'' \<mapsto>
                                 Map.empty(''charMap.a'' \<mapsto> FString ''g1'',
                                           ''charMap.b'' \<mapsto> FString ''g2''))\<rparr>\<rparr>)"
  by (simp add: ex_remote_one_def ex_remote_one_eq)
     (simp add: save_defs eval_defs ex_env2_def ex_img2_def)

text \<open>
  \<^verbatim>\<open>user_1_x\<close> saves \<^verbatim>\<open>a\<close> and \<^verbatim>\<open>b\<close> on an empty Firestore. The document of the user
  then has the fields \<^verbatim>\<open>charMap.a\<close> and \<^verbatim>\<open>charMap.b\<close> and no \<^verbatim>\<open>charMap\<close>; both loaders
  return nothing; and resolving \<^verbatim>\<open>a\<close> gives the user's drawing back as a global glyph.
\<close>

theorem remote_saves_not_loaded_witness:
  "db ex_remote_new = Some \<lparr>globalGlyphs = [], userGlyphs = Map.empty\<rparr>
   \<and> getUserId ex_env (localStorage ex_remote_new) = Inr (''user_1_x'', localStorage ex_remote_new)
   \<and> saveLettering ex_env (JString ''a'') (JString ex_img1) ex_remote_new = (Inr ''g1'', ex_remote_one)
   \<and> saveLettering ex_env2 (JString ''b'') (JString ex_img2) ex_remote_one = (Inr ''g2'', ex_remote_two)
   \<and> loadLetteringsForInteraction ex_env ex_remote_two = (Inr (emptyObject, FMap Map.empty), ex_remote_two)
   \<and> loadUserLetterings ex_env ex_remote_two = (Inr Map.empty, ex_remote_two)
   \<and> the (userGlyphs (the (db ex_remote_two)) ''user_1_x'') ''charMap.a'' = Some (FString ''g1'')
   \<and> the (userGlyphs (the (db ex_remote_two)) ''user_1_x'') ''charMap.b'' = Some (FString ''g2'')
   \<and> the (userGlyphs (the (db ex_remote_two)) ''user_1_x'') ''charMap'' = None
   \<and> (\<exists>obj. loadAllLetteringsForInteraction ex_env (JArray [JString ''a'']) ex_remote_two
              = (Inr obj, ex_remote_two)
          \<and> props obj ''a'' = Some \<lparr>imageData = JString ex_img1, source = SourceGlobal\<rparr>)"
proof -
  have h1: "db ex_remote_new = Some \<lparr>globalGlyphs = [], userGlyphs = Map.empty\<rparr>"
    by (simp add: ex_remote_new_def)
  have h2: "getUserId ex_env (localStorage ex_remote_new) = Inr (''user_1_x'', localStorage ex_remote_new)"
    by (simp add: ex_remote_new_def eval_defs)
  have h3: "(case userGlyphs \<lparr>globalGlyphs = [], userGlyphs = Map.empty\<rparr> ''user_1_x'' of
               None \<Rightarrow> None | Some d \<Rightarrow> d ''charMap'') = None"
    by simp
  have h4: "saveLettering ex_env (JString ''a'') (JString ex_img1) ex_remote_new = (Inr ''g1'', ex_remote_one)"
    by (simp add: ex_remote_one_def ex_remote_one_eq)
  have h5: "saveLettering ex_env2 (JString ''b'') (JString ex_img2) ex_remote_one = (Inr ''g2'', ex_remote_two)"
    by (simp add: ex_remote_two_def ex_remote_two_eq)
  note own = remote_saves_not_loaded [OF h1 h2 h3 h4 h5, of ex_env]
  have two: "ex_remote_two =
      \<lparr>localStorage = \<lparr>items = [(''absurde_user_id'', ''user_1_x'')], quota = 5000000\<rparr>,
       db = Some \<lparr>globalGlyphs =
                    [(''g1'', \<lparr>doc_char = JString ''a'',
                               doc_imageData = JString ''data:image/png;base64,AAAA'',
                               doc_createdAt = 1700000000001, doc_sourceUserId = ''user_1_x''\<rparr>),
                     (''g2'', \<lparr>doc_char = JString ''b'',
                               doc_imageData = JString ''data:image/png;base64,BBBB'',
                               doc_createdAt = 1700000001000, doc_sourceUserId = ''user_1_x''\<rparr>)],
                  userGlyphs = Map.empty(''user_1_x'' \<mapsto>
                                 Map.empty(''charMap.a'' \<mapsto> FString ''g1'',
                                           ''charMap.b'' \<mapsto> FString ''g2''))\<rparr>\<rparr>"
    by (simp add: ex_remote_two_def ex_remote_two_eq)
  have fields: "the (userGlyphs (the (db ex_remote_two)) ''user_1_x'') ''charMap.a'' = Some (FString ''g1'')
     \<and> the (userGlyphs (the (db ex_remote_two)) ''user_1_x'') ''charMap.b'' = Some (FString ''g2'')
     \<and> the (userGlyphs (the (db ex_remote_two)) ''user_1_x'') ''charMap'' = None"
    unfolding two by simp
  have all: "loadAllLetteringsForInteraction ex_env (JArray [JString ''a'']) ex_remote_two
              = (Inr \<lparr>props = Map.empty(''a'' \<mapsto> \<lparr>imageData = JString ex_img1, source = SourceGlobal\<rparr>),
                      proto = None\<rparr>, ex_remote_two)"
    unfolding loadAll_unfold [OF own [THEN conjunct1]]
    by (subst (1 2 3) two) (simp add: lookup_defs emptyObject_def ex_env_def ex_img1_def)
  from h1 h2 h4 h5 own fields all show ?thesis
    by simp
qed

text \<open>
  Own priority where the saved character does reach the user's own letterings: after a
  save without Firebase (of any character but \<^verbatim>\<open>__proto__\<close>), and with the nested
  \<^verbatim>\<open>charMap\<close> that the documentation describes, every resolution that returns maps the
  character to the user's own image with source \<^verbatim>\<open>user\<close>.
\<close>

lemma local_save_own_priority:
  assumes "db st = None"
    and "c \<noteq> []" and "c \<noteq> ''__proto__''" and "startsWith v ''data:image/''"
    and "getUserId e (localStorage st) = Inr (u, ls)"
    and "setItem (localKey u c) v ls = Inr ls'"
  shows "saveLettering e (JString c) (JString v) st = (Inr (localKey u c), st\<lparr>localStorage := ls'\<rparr>)
       \<and> (\<forall>e' req. \<exists>obj.
             loadAllLetteringsForInteraction e' (JArray req) (st\<lparr>localStorage := ls'\<rparr>)
               = (Inr obj, st\<lparr>localStorage := ls'\<rparr>)
           \<and> props obj c = Some \<lparr>imageData = JString v, source = SourceUser\<rparr>)"
proof -
  let ?st = "st\<lparr>localStorage := ls'\<rparr>"
  have v: "v \<noteq> []" using assms(4) by (rule marker_nonempty)
  have save: "saveLettering e (JString c) (JString v) st = (Inr (localKey u c), ?st)"
    using assms v by (simp add: saveLettering_def)
  have stored: "getItem ls' (localKey u c) = Some v"
    using assms(6) by (simp add: getItem_setItem)
  have "getItem ls USER_ID_KEY = Some u \<and> u \<noteq> []"
    using assms(5) by (rule getUserId_persists)
  then have id: "getItem ls' USER_ID_KEY = Some u" "u \<noteq> []"
    using assms(6) localKey_not_id [of u c] by (auto simp: getItem_setItem)
  have res: "\<exists>obj. loadAllLetteringsForInteraction e' (JArray req) ?st = (Inr obj, ?st)
           \<and> props obj c = Some \<lparr>imageData = JString v, source = SourceUser\<rparr>" for e' req
  proof -
    have g: "getUserId e' (localStorage ?st) = Inr (u, ls')"
      using id by (simp add: getUserId_stored)
    have d: "db ?st = None" using assms(1) by simp
    from loadLetteringsForInteraction_local [OF d g] obtain own cm where
      own: "loadLetteringsForInteraction e' ?st = (Inr (own, cm), ?st)"
      and c: "props own c = Some \<lparr>imageData = JString v, source = SourceUser\<rparr>"
      using stored v assms(3) by (auto simp: localKey_prefix)
    have none: "getRandomGlobalGlyph e' None j k = None" for j k
      by (simp add: getRandomGlobalGlyph_def)
    have same: "globalLookups e' None i cs (False, obj) = (False, obj)" for i cs obj
      by (induction cs arbitrary: i) (simp_all add: none)
    show ?thesis
      unfolding loadAll_unfold [OF own] d using c by (simp add: same)
  qed
  from save res show ?thesis by blast
qed

lemma documented_layout_own:
  assumes "db st = Some fs" and "getItem (localStorage st) USER_ID_KEY = Some u" and "u \<noteq> []"
    and "\<not> getUserDoc_error e"
    and "userGlyphs fs u = Some d" and "d ''charMap'' = Some (FMap m)"
    and "m c = Some gid" and "c \<noteq> ''__proto__''"
    and "\<not> getGlyphDoc_error e c" and "map_of (globalGlyphs fs) gid = Some g"
  shows "\<exists>r. loadAllLetteringsForInteraction e (JArray req) st = (r, st)
          \<and> (r = Inl TypeError
             \<or> (\<exists>obj. r = Inr obj
                  \<and> props obj c = Some \<lparr>imageData = doc_imageData g, source = SourceUser\<rparr>))"
proof -
  from load_with_charMap [OF assms] obtain own cm where
    own: "loadLetteringsForInteraction e st = (Inr (own, cm), st)"
    and c: "props own c = Some \<lparr>imageData = doc_imageData g, source = SourceUser\<rparr>"
    by blast
  show ?thesis
    unfolding loadAll_unfold [OF own] using c by (auto simp: globalLookups_notin)
qed

text \<open>
  C1 does not hold of the code, for the reason C2 does not. After a successful save of
  \<open>c\<close> to Firestore by a user whose document has no field \<^verbatim>\<open>charMap\<close>, no resolution
  returns an entry with source \<^verbatim>\<open>user\<close>: every entry of every result has source
  \<^verbatim>\<open>global\<close>. And when the lookups for \<open>c\<close> work, resolving \<^verbatim>\<open>[c]\<close> maps \<open>c\<close> to a glyph
  of the pool with source \<^verbatim>\<open>global\<close>.
\<close>

theorem remote_save_resolves_global:
  assumes "db st = Some fs"
    and "getUserId e1 (localStorage st) = Inr (u, ls)"
    and "(case userGlyphs fs u of None \<Rightarrow> None | Some d \<Rightarrow> d ''charMap'') = None"
    and "saveLettering e1 (JString c) (JString v) st = (Inr g, st1)"
  shows "(\<forall>e2 req. \<exists>r. loadAllLetteringsForInteraction e2 (JArray req) st1 = (r, st1)
            \<and> (\<forall>obj k d. r = Inr obj \<and> props obj k = Some d \<longrightarrow> source d = SourceGlobal))
       \<and> (\<forall>e2. c \<notin> set objectPrototypeNames \<and> (\<forall>i. \<not> getDocs_error e2 i c)
              \<and> (\<forall>fs1 p. db st1 = Some fs1 \<and> p \<in> set (globalGlyphs fs1)
                      \<and> doc_char (snd p) = JString c \<longrightarrow>
                    isString (doc_imageData (snd p)) \<and> stringOf (doc_imageData (snd p)) \<noteq> [])
            \<longrightarrow> (\<exists>obj d. loadAllLetteringsForInteraction e2 (JArray [JString c]) st1 = (Inr obj, st1)
                    \<and> props obj c = Some d \<and> source d = SourceGlobal))"
proof -
  from saveLettering_remote [OF assms(4) assms(1)] assms(2) obtain fs1 where
    ls1: "localStorage st1 = ls" and db1: "db st1 = Some fs1"
    and saved: "map_of (globalGlyphs fs1) g
             = Some \<lparr>doc_char = JString c, doc_imageData = JString v, doc_createdAt = server_time e1,
                      doc_sourceUserId = u\<rparr>"
    and cm1: "\<forall>uid. (case userGlyphs fs1 uid of None \<Rightarrow> None | Some d \<Rightarrow> d ''charMap'')
                = (case userGlyphs fs uid of None \<Rightarrow> None | Some d \<Rightarrow> d ''charMap'')"
    by auto
  have id: "getItem (localStorage st1) USER_ID_KEY = Some u" "u \<noteq> []"
    using getUserId_persists [OF assms(2)] by (simp_all add: ls1)
  have nocm: "(case userGlyphs fs1 u of None \<Rightarrow> None | Some d \<Rightarrow> d ''charMap'') = None"
    using cm1 assms(3) by simp
  have own: "loadLetteringsForInteraction e2 st1 = (Inr (emptyObject, FMap Map.empty), st1)" for e2
    using load_without_charMap [OF db1 id nocm] by simp
  have c: "c \<noteq> []"
    using assms(4) by (auto simp: saveLettering_def split: if_splits)
  have first: "\<exists>r. loadAllLetteringsForInteraction e2 (JArray req) st1 = (r, st1)
            \<and> (\<forall>obj k d. r = Inr obj \<and> props obj k = Some d \<longrightarrow> source d = SourceGlobal)" for e2 req
  proof -
    let ?missing = "filter (\<lambda>c. props emptyObject c = None \<and> c \<notin> set objectPrototypeNames) (validChars req)"
    let ?R = "globalLookups e2 (db st1) 0 ?missing (False, \<lparr>props = props emptyObject, proto = None\<rparr>)"
    have "source d = SourceGlobal" if "props (snd ?R) k = Some d" for k d
      using globalLookups_cases [of e2 "db st1" 0 ?missing False "\<lparr>props = props emptyObject, proto = None\<rparr>" k] that
      by (auto simp: emptyObject_sel)
    then show ?thesis
      unfolding loadAll_unfold [OF own] by auto
  qed
  have second: "\<exists>obj d. loadAllLetteringsForInteraction e2 (JArray [JString c]) st1 = (Inr obj, st1)
                    \<and> props obj c = Some d \<and> source d = SourceGlobal"
    if h: "c \<notin> set objectPrototypeNames" "\<forall>i. \<not> getDocs_error e2 i c"
      "\<forall>fs1 p. db st1 = Some fs1 \<and> p \<in> set (globalGlyphs fs1) \<and> doc_char (snd p) = JString c \<longrightarrow>
          isString (doc_imageData (snd p)) \<and> stringOf (doc_imageData (snd p)) \<noteq> []" for e2
  proof -
    have mem: "(g, \<lparr>doc_char = JString c, doc_imageData = JString v, doc_createdAt = server_time e1,
                      doc_sourceUserId = u\<rparr>) \<in> set (globalGlyphs fs1)"
      using saved by (rule map_of_SomeD)
    have wf: "\<forall>p \<in> set (globalGlyphs fs1). doc_char (snd p) = JString c \<longrightarrow>
           isString (doc_imageData (snd p)) \<and> stringOf (doc_imageData (snd p)) \<noteq> []"
      using h(3) db1 by blast
    from resolve_single [OF own _ c db1 mem _ wf h(2)] h(1) show ?thesis
      by (auto simp: emptyObject_sel)
  qed
  from first second show ?thesis by blast
qed

text \<open>
  \<^verbatim>\<open>user_1_x\<close> saves an \<^verbatim>\<open>a\<close> on a Firestore where \<^verbatim>\<open>user_9_z\<close> has drawn one. The save
  succeeds and the pool holds the new drawing; resolving \<^verbatim>\<open>a\<close> then returns the drawing
  of \<^verbatim>\<open>user_9_z\<close>, as a global glyph.
\<close>

theorem remote_save_resolves_global_witness:
  "getUserId ex_env (localStorage ex_remote_taken) = Inr (''user_1_x'', localStorage ex_remote_taken)
   \<and> saveLettering ex_env (JString ''a'') (JString ex_img1) ex_remote_taken
       = (Inr ''g1'', ex_remote_taken_saved)
   \<and> map_of (globalGlyphs (the (db ex_remote_taken_saved))) ''g1''
       = Some \<lparr>doc_char = JString ''a'', doc_imageData = JString ex_img1,
               doc_createdAt = 1700000000001, doc_sourceUserId = ''user_1_x''\<rparr>
   \<and> (\<exists>obj. loadAllLetteringsForInteraction ex_env2 (JArray [JString ''a'']) ex_remote_taken_saved
              = (Inr obj, ex_remote_taken_saved)
          \<and> props obj ''a'' = Some \<lparr>imageData = JString ex_img2, source = SourceGlobal\<rparr>)"
proof -
  let ?fs = "\<lparr>globalGlyphs =
                [(''g0'', \<lparr>doc_char = JString ''a'',
                           doc_imageData = JString ''data:image/png;base64,BBBB'',
                           doc_createdAt = 1699999999999, doc_sourceUserId = ''user_9_z''\<rparr>)],
              userGlyphs = Map.empty\<rparr>"
  have h1: "db ex_remote_taken = Some ?fs" by (simp add: ex_remote_taken_def)
  have h2: "getUserId ex_env (localStorage ex_remote_taken) = Inr (''user_1_x'', localStorage ex_remote_taken)"
    by (simp add: ex_remote_taken_def eval_defs)
  have h3: "(case userGlyphs ?fs ''user_1_x'' of None \<Rightarrow> None | Some d \<Rightarrow> d ''charMap'') = None"
    by simp
  have h4: "saveLettering ex_env (JString ''a'') (JString ex_img1) ex_remote_taken
       = (Inr ''g1'', ex_remote_taken_saved)"
    by (simp add: save_defs eval_defs ex_remote_taken_def ex_remote_taken_saved_def ex_env_def
        ex_img1_def)
  have doc: "map_of (globalGlyphs (the (db ex_remote_taken_saved))) ''g1''
       = Some \<lparr>doc_char = JString ''a'', doc_imageData = JString ex_img1,
               doc_createdAt = 1700000000001, doc_sourceUserId = ''user_1_x''\<rparr>"
    by (simp add: ex_remote_taken_saved_def ex_img1_def)
  have cond: "''a'' \<notin> set objectPrototypeNames \<and> (\<forall>i. \<not> getDocs_error ex_env2 i ''a'')
              \<and> (\<forall>fs1 p. db ex_remote_taken_saved = Some fs1 \<and> p \<in> set (globalGlyphs fs1)
                      \<and> doc_char (snd p) = JString ''a'' \<longrightarrow>
                    isString (doc_imageData (snd p)) \<and> stringOf (doc_imageData (snd p)) \<noteq> [])"
    by (auto simp: objectPrototypeNames_def ex_env2_def ex_remote_taken_saved_def)
  from remote_save_resolves_global [OF h1 h2 h3 h4, THEN conjunct2, rule_format, OF cond]
  obtain obj d where
    r: "loadAllLetteringsForInteraction ex_env2 (JArray [JString ''a'']) ex_remote_taken_saved
          = (Inr obj, ex_remote_taken_saved)"
    and d: "props obj ''a'' = Some d" "source d = SourceGlobal"
    by blast
  have own: "loadLetteringsForInteraction ex_env2 ex_remote_taken_saved
               = (Inr (emptyObject, FMap Map.empty), ex_remote_taken_saved)"
    by (simp add: loadLetteringsForInteraction_def ex_remote_taken_saved_def ex_env2_def eval_defs
        objectFrom_def emptyObject_def)
  have idx: "randomIndex (1, 0) (Suc (Suc 0)) = 0"
    by (simp add: randomIndex_def round53_def)
  have "props obj ''a'' = Some \<lparr>imageData = JString ex_img2, source = SourceGlobal\<rparr>"
    using r unfolding loadAll_unfold [OF own]
    by (auto simp: getRandomGlobalGlyph_def matchingGlyphs_def setProp_def objectPrototypeNames_def
        validChars_def idx Let_def emptyObject_def ex_env2_def ex_img2_def
        ex_remote_taken_saved_def split: if_splits)
  with h2 h4 doc r show ?thesis by simp
qed

end
